theory Spec2Isabelle
  imports Complex_Main "HOL-Library.Multiset" "HOL-Library.Log_Nat"
begin

section \<open>JavaScript values\<close>

text \<open>
  The front end (\<^verbatim>\<open>src/frontend/web/src/App.tsx\<close>) keeps every campaign as a JSON
  document in a key/value store and reads it back with \<^verbatim>\<open>JSON.parse\<close>, whose result has
  the TypeScript type \<^verbatim>\<open>any\<close>. The embedding therefore works on untyped values.

  Numbers: a JavaScript number is a binary64 floating point value: a finite value, given here
  by the rational it denotes, \<^verbatim>\<open>NaN\<close> or a signed infinity. The sign of zero is outside
  the model.

  Strings: a string is held as the bytes of its UTF-8 encoding. The operations on characters
  (\<^verbatim>\<open>substring\<close>, the iteration over a string) are those of the ASCII range, where a byte
  is a character.
\<close>

datatype number = Fin rat | NaN | Infty bool

datatype jsval =
    JUndefined
  | JNull
  | JBool bool
  | JNum number
  | JStr string
  | JArr "jsval list"
  | JObj "(string \<times> jsval) list"

datatype exn = Error string | TypeError | SyntaxError | InvalidCharacterError

subsection \<open>Binary64 arithmetic\<close>

text \<open>
  The exponent of a positive rational \<open>p / q\<close>: the \<open>e\<close> with
  \<open>2 ^ e \<le> p / q < 2 ^ (e + 1)\<close>, found from the bit lengths of \<open>p\<close> and \<open>q\<close>.
\<close>

definition ilog2 :: "int \<Rightarrow> int \<Rightarrow> int" where
  "ilog2 p q =
     (let d = bitlen p - bitlen q
      in if (if 0 \<le> d then q * 2 ^ nat d \<le> p else q \<le> p * 2 ^ nat (- d)) then d else d - 1)"

text \<open>The integer nearest to \<open>a / b\<close>, a tie going to the even one.\<close>

definition roundDiv :: "int \<Rightarrow> int \<Rightarrow> int" where
  "roundDiv a b =
     (let f = a div b; r = a mod b
      in if 2 * r < b then f else if b < 2 * r then f + 1 else if even f then f else f + 1)"

text \<open>The integer nearest to \<open>p / q / 2 ^ k\<close>, and the rational \<open>m * 2 ^ k\<close>.\<close>

definition significand :: "int \<Rightarrow> int \<Rightarrow> int \<Rightarrow> int" where
  "significand p q k =
     (if 0 \<le> k then roundDiv p (q * 2 ^ nat k) else roundDiv (p * 2 ^ nat (- k)) q)"

definition scale2 :: "int \<Rightarrow> int \<Rightarrow> rat" where
  "scale2 m k = (if 0 \<le> k then of_int (m * 2 ^ nat k) else of_int m / of_int (2 ^ nat (- k)))"

text \<open>
  The binary64 value nearest to a real result (round to nearest, ties to even): 53 bits of
  significand, exponents from -1022 to 1023, subnormal values below, infinity beyond the
  largest finite value. Every arithmetic operation of the language returns its exact result
  rounded in this way.
\<close>

definition binary64 :: "rat \<Rightarrow> number" where
  "binary64 x =
     (case quotient_of x of
        (p, q) \<Rightarrow>
          if p = 0 then Fin 0
          else
            (let e = max (ilog2 \<bar>p\<bar> q) (- 1022);
                 n = significand \<bar>p\<bar> q (e - 52)
             in if 1023 < e \<or> (e = 1023 \<and> n = 2 ^ 53) then Infty (0 < p)
                else Fin (scale2 (sgn p * n) (e - 52))))"

text \<open>The arithmetic operators \<^verbatim>\<open>*\<close>, \<^verbatim>\<open>+\<close>, \<^verbatim>\<open>-\<close>, \<^verbatim>\<open>/\<close> on numbers.\<close>

fun mulN :: "number \<Rightarrow> number \<Rightarrow> number" where
  "mulN (Fin a) (Fin b) = binary64 (a * b)"
| "mulN NaN _ = NaN"
| "mulN _ NaN = NaN"
| "mulN (Infty s) (Infty t) = Infty (s = t)"
| "mulN (Infty s) (Fin b) = (if b = 0 then NaN else Infty (s = (0 < b)))"
| "mulN (Fin a) (Infty t) = (if a = 0 then NaN else Infty (t = (0 < a)))"

fun addN :: "number \<Rightarrow> number \<Rightarrow> number" where
  "addN (Fin a) (Fin b) = binary64 (a + b)"
| "addN NaN _ = NaN"
| "addN _ NaN = NaN"
| "addN (Infty s) (Infty t) = (if s = t then Infty s else NaN)"
| "addN (Infty s) (Fin b) = Infty s"
| "addN (Fin a) (Infty t) = Infty t"

fun negN :: "number \<Rightarrow> number" where
  "negN (Fin a) = Fin (- a)"
| "negN NaN = NaN"
| "negN (Infty s) = Infty (\<not> s)"

definition subN :: "number \<Rightarrow> number \<Rightarrow> number" where
  "subN a b = addN a (negN b)"

fun divN :: "number \<Rightarrow> number \<Rightarrow> number" where
  "divN (Fin a) (Fin b) =
     (if b = 0 then (if a = 0 then NaN else Infty (0 < a)) else binary64 (a / b))"
| "divN NaN _ = NaN"
| "divN _ NaN = NaN"
| "divN (Infty s) (Infty t) = NaN"
| "divN (Infty s) (Fin b) = Infty (s = (0 \<le> b))"
| "divN (Fin a) (Infty t) = Fin 0"


fun Math_round :: "number \<Rightarrow> number" where
  "Math_round (Fin a) = Fin (of_int (round a))"
| "Math_round NaN = NaN"
| "Math_round (Infty s) = Infty s"

text \<open>\<^verbatim>\<open>Math.max(...xs)\<close>: minus infinity on no argument, \<^verbatim>\<open>NaN\<close> as soon as one
  argument is \<^verbatim>\<open>NaN\<close>.\<close>

fun max2 :: "number \<Rightarrow> number \<Rightarrow> number" where
  "max2 NaN _ = NaN"
| "max2 _ NaN = NaN"
| "max2 (Fin a) (Fin b) = Fin (max a b)"
| "max2 (Infty s) (Infty t) = Infty (s \<or> t)"
| "max2 (Infty s) (Fin b) = (if s then Infty True else Fin b)"
| "max2 (Fin a) (Infty t) = (if t then Infty True else Fin a)"

definition Math_max :: "number list \<Rightarrow> number" where
  "Math_max xs = foldl max2 (Infty False) xs"

text \<open>\<^verbatim>\<open>v > 0\<close> and \<^verbatim>\<open>v < 0\<close> on a number, as the sort reads a comparator's result.\<close>

fun positive :: "number \<Rightarrow> bool" where
  "positive (Fin a) = (0 < a)"
| "positive NaN = False"
| "positive (Infty s) = s"

fun negative :: "number \<Rightarrow> bool" where
  "negative (Fin a) = (a < 0)"
| "negative NaN = False"
| "negative (Infty s) = (\<not> s)"

subsection \<open>The campaign of the list and the runtime\<close>

text \<open>The interface \<^verbatim>\<open>CampaignData\<close>, with the values the loader puts into its fields.\<close>

record CampaignData =
  id' :: jsval
  name :: jsval
  encryptedData :: jsval
  timestamp :: jsval
  owner :: jsval
  carbonFootprint :: jsval
  status :: jsval
  details :: jsval

text \<open>
  What the language and its libraries do outside this repository, and what this embedding
  does not define, is a parameter: the JSON codec and the UTF-8 codec of the wallet library
  (\<^verbatim>\<open>JSON.parse\<close> and \<^verbatim>\<open>ethers.toUtf8String\<close>, which throw on malformed input,
  \<^verbatim>\<open>JSON.stringify\<close> and \<^verbatim>\<open>ethers.toUtf8Bytes\<close>), the number that a string
  denotes when it is not a row of decimal digits, the text of a number that is not a whole
  number below \<open>10 ^ 21\<close>, \<^verbatim>\<open>String.prototype.toLowerCase\<close>, the Base64 text that
  \<^verbatim>\<open>btoa\<close> gives for a string within Latin-1, the text of an engine's error messages
  (one text for each kind of error, wherever it is thrown), and the positions in which
  \<^verbatim>\<open>Array.prototype.sort\<close> leaves the campaigns when its comparator is not a consistent
  ordering of them.
\<close>

record runtime =
  JSON_parse :: "string \<Rightarrow> exn + jsval"
  JSON_stringify :: "jsval \<Rightarrow> string"
  toUtf8String :: "string \<Rightarrow> exn + string"
  toUtf8Bytes :: "string \<Rightarrow> string"
  StringToNumber_other :: "string \<Rightarrow> number"
  NumberToString_other :: "number \<Rightarrow> string"
  toLowerCase :: "string \<Rightarrow> string"
  base64 :: "string \<Rightarrow> string"
  engine_message :: "exn \<Rightarrow> string"
  sort_other :: "(CampaignData \<Rightarrow> CampaignData \<Rightarrow> exn + number) \<Rightarrow> CampaignData list \<Rightarrow> nat list"

subsection \<open>Conversions\<close>

fun nullish :: "jsval \<Rightarrow> bool" where
  "nullish JUndefined = True"
| "nullish JNull = True"
| "nullish v = False"

text \<open>The decimal digits of a natural number.\<close>

function decimal :: "int \<Rightarrow> string" where
  "decimal n =
     (if n < 10 then [char_of (48 + n)] else decimal (n div 10) @ [char_of (48 + n mod 10)])"
  by pat_completeness auto
termination
  by (relation "measure nat") auto

text \<open>
  The text of a number (\<^verbatim>\<open>Number::toString\<close>): a whole number below \<open>10 ^ 21\<close> in
  magnitude is written in decimal digits.
\<close>

definition NumberToString :: "runtime \<Rightarrow> number \<Rightarrow> string" where
  "NumberToString rt n =
     (case n of
        NaN \<Rightarrow> ''NaN''
      | Infty s \<Rightarrow> (if s then ''Infinity'' else ''-Infinity'')
      | Fin r \<Rightarrow>
          if of_int \<lfloor>r\<rfloor> = r \<and> \<bar>r\<bar> < 10 ^ 21
          then (if r < 0 then ''-'' else []) @ decimal \<lfloor>\<bar>r\<bar>\<rfloor>
          else NumberToString_other rt n)"

text \<open>
  The conversion to a string (\<^verbatim>\<open>ToString\<close>), as a template literal \<^verbatim>\<open>`${v}`\<close> applies
  it. A value that JSON denotes has only the methods of its prototype: an array is
  converted by \<^verbatim>\<open>Array.prototype.join\<close>, with undefined and null elements as the empty
  string, and an object by \<^verbatim>\<open>Object.prototype.toString\<close>, unless it has a property
  \<^verbatim>\<open>toString\<close> of its own: this is not a function, the inherited \<^verbatim>\<open>valueOf\<close> returns the
  object itself, and the conversion throws a TypeError.
\<close>

fun ToString :: "runtime \<Rightarrow> jsval \<Rightarrow> exn + string"
  and join :: "runtime \<Rightarrow> jsval list \<Rightarrow> exn + string" where
  "ToString rt JUndefined = Inr ''undefined''"
| "ToString rt JNull = Inr ''null''"
| "ToString rt (JBool b) = Inr (if b then ''true'' else ''false'')"
| "ToString rt (JNum n) = Inr (NumberToString rt n)"
| "ToString rt (JStr s) = Inr s"
| "ToString rt (JArr vs) = join rt vs"
| "ToString rt (JObj kvs) =
     (if map_of kvs ''toString'' = None then Inr ''[object Object]'' else Inl TypeError)"
| "join rt [] = Inr []"
| "join rt (v # vs) =
     (case (if nullish v then Inr [] else ToString rt v) of
        Inl e \<Rightarrow> Inl e
      | Inr s \<Rightarrow>
          if vs = [] then Inr s
          else (case join rt vs of Inl e \<Rightarrow> Inl e | Inr t \<Rightarrow> Inr (s @ '','' @ t)))"

text \<open>
  The conversion to a primitive value (\<^verbatim>\<open>ToPrimitive\<close>): for an array or an object it is
  the string above, whatever the hint.
\<close>

fun ToPrimitive :: "runtime \<Rightarrow> jsval \<Rightarrow> exn + jsval" where
  "ToPrimitive rt (JArr vs) = (case join rt vs of Inl e \<Rightarrow> Inl e | Inr s \<Rightarrow> Inr (JStr s))"
| "ToPrimitive rt (JObj kvs) =
     (case ToString rt (JObj kvs) of Inl e \<Rightarrow> Inl e | Inr s \<Rightarrow> Inr (JStr s))"
| "ToPrimitive rt v = Inr v"

text \<open>
  The number that a string denotes (\<^verbatim>\<open>StringToNumber\<close>): zero for the empty string, and
  for a row of decimal digits the binary64 value nearest to the number they write.
\<close>

definition isDigits :: "string \<Rightarrow> bool" where
  "isDigits s = (s \<noteq> [] \<and> list_all (\<lambda>c. 48 \<le> (of_char c :: int) \<and> (of_char c :: int) \<le> 57) s)"

definition digitsValue :: "string \<Rightarrow> int" where
  "digitsValue s = foldl (\<lambda>n c. 10 * n + (of_char c - 48)) 0 s"

definition StringToNumber :: "runtime \<Rightarrow> string \<Rightarrow> number" where
  "StringToNumber rt s =
     (if s = [] then Fin 0
      else if isDigits s then binary64 (of_int (digitsValue s))
      else StringToNumber_other rt s)"

text \<open>The conversion to a number (\<^verbatim>\<open>ToNumber\<close>) that \<^verbatim>\<open>*\<close>, \<^verbatim>\<open>-\<close> and \<^verbatim>\<open>/\<close> apply to
  an operand.\<close>

fun ToNumber :: "runtime \<Rightarrow> jsval \<Rightarrow> exn + number" where
  "ToNumber rt JUndefined = Inr NaN"
| "ToNumber rt JNull = Inr (Fin 0)"
| "ToNumber rt (JBool b) = Inr (Fin (if b then 1 else 0))"
| "ToNumber rt (JNum n) = Inr n"
| "ToNumber rt (JStr s) = Inr (StringToNumber rt s)"
| "ToNumber rt v =
     (case ToString rt v of Inl e \<Rightarrow> Inl e | Inr s \<Rightarrow> Inr (StringToNumber rt s))"

text \<open>
  Where the value has been converted before, or is primitive, the conversion cannot throw:
  the footprints of the chart (line 55 has added them in the same render), the operands of
  an addition once they are primitive, and a key whose conversion has succeeded. There the
  results are these.
\<close>

definition toString :: "runtime \<Rightarrow> jsval \<Rightarrow> string" where
  "toString rt v = (case ToString rt v of Inl e \<Rightarrow> [] | Inr s \<Rightarrow> s)"

definition toNumber :: "runtime \<Rightarrow> jsval \<Rightarrow> number" where
  "toNumber rt v = (case ToNumber rt v of Inl e \<Rightarrow> NaN | Inr n \<Rightarrow> n)"

text \<open>Truthiness, and \<^verbatim>\<open>a || b\<close>.\<close>

fun truthy :: "jsval \<Rightarrow> bool" where
  "truthy JUndefined = False"
| "truthy JNull = False"
| "truthy (JBool b) = b"
| "truthy (JNum (Fin a)) = (a \<noteq> 0)"
| "truthy (JNum NaN) = False"
| "truthy (JNum (Infty s)) = True"
| "truthy (JStr s) = (s \<noteq> [])"
| "truthy (JArr vs) = True"
| "truthy (JObj kvs) = True"

definition orElse :: "jsval \<Rightarrow> jsval \<Rightarrow> jsval" where
  "orElse a b = (if truthy a then a else b)"

text \<open>
  \<^verbatim>\<open>a + b\<close>: both operands are made primitive, the left one first; if one of them is then
  a string the result is the concatenation of their texts, and otherwise the sum of their
  numbers.
\<close>

fun isString :: "jsval \<Rightarrow> bool" where
  "isString (JStr s) = True"
| "isString v = False"

definition jsPlus :: "runtime \<Rightarrow> jsval \<Rightarrow> jsval \<Rightarrow> exn + jsval" where
  "jsPlus rt a b =
     (case ToPrimitive rt a of
        Inl e \<Rightarrow> Inl e
      | Inr pa \<Rightarrow>
          (case ToPrimitive rt b of
             Inl e \<Rightarrow> Inl e
           | Inr pb \<Rightarrow>
               Inr (if isString pa \<or> isString pb then JStr (toString rt pa @ toString rt pb)
                    else JNum (addN (toNumber rt pa) (toNumber rt pb)))))"

text \<open>
  Property access \<^verbatim>\<open>v.k\<close>, for the property names the program reads (\<^verbatim>\<open>name\<close>,
  \<^verbatim>\<open>data\<close>, \<^verbatim>\<open>timestamp\<close>, \<^verbatim>\<open>owner\<close>, \<^verbatim>\<open>carbonFootprint\<close>, \<^verbatim>\<open>status\<close>,
  \<^verbatim>\<open>details\<close>, \<^verbatim>\<open>servers\<close>, \<^verbatim>\<open>bandwidth\<close>, \<^verbatim>\<open>impressions\<close>, \<^verbatim>\<open>duration\<close>):
  on undefined and null it throws a TypeError; on an object it is the property's value or
  undefined; numbers, booleans, strings and arrays have no property of these names.
\<close>

fun propOf :: "jsval \<Rightarrow> string \<Rightarrow> jsval" where
  "propOf (JObj kvs) k = (case map_of kvs k of None \<Rightarrow> JUndefined | Some v \<Rightarrow> v)"
| "propOf v k = JUndefined"

definition getProp :: "jsval \<Rightarrow> string \<Rightarrow> exn + jsval" where
  "getProp v k = (if nullish v then Inl TypeError else Inr (propOf v k))"

text \<open>
  An object literal \<^verbatim>\<open>{...v, k: x}\<close>: the own properties of \<^verbatim>\<open>v\<close> in their order, the
  property \<^verbatim>\<open>k\<close> overwritten in place when present and added at the end otherwise. The
  program spreads a value only after it has read a property of a property of it, so the value
  is an object there.
\<close>

fun ownProps :: "jsval \<Rightarrow> (string \<times> jsval) list" where
  "ownProps (JObj kvs) = kvs"
| "ownProps v = []"

fun setProp :: "string \<Rightarrow> jsval \<Rightarrow> (string \<times> jsval) list \<Rightarrow> (string \<times> jsval) list" where
  "setProp k x [] = [(k, x)]"
| "setProp k x ((k', y) # kvs) = (if k' = k then (k, x) # kvs else (k', y) # setProp k x kvs)"



text \<open>\<^verbatim>\<open>e.message\<close>: the text given to \<^verbatim>\<open>new Error\<close>, or the engine's.\<close>

fun message :: "runtime \<Rightarrow> exn \<Rightarrow> string" where
  "message rt (Error m) = m"
| "message rt e = engine_message rt e"

text \<open>\<^verbatim>\<open>JSON.parse(ethers.toUtf8String(bytes))\<close>: either call may throw.\<close>

definition decode :: "runtime \<Rightarrow> string \<Rightarrow> exn + jsval" where
  "decode rt bytes = (case toUtf8String rt bytes of Inl e \<Rightarrow> Inl e | Inr s \<Rightarrow> JSON_parse rt s)"

text \<open>\<^verbatim>\<open>ethers.toUtf8Bytes(JSON.stringify(v))\<close>.\<close>

definition encode :: "runtime \<Rightarrow> jsval \<Rightarrow> string" where
  "encode rt v = toUtf8Bytes rt (JSON_stringify rt v)"


text \<open>
  \<^verbatim>\<open>Array.prototype.slice(start, end)\<close>: a negative index counts from the end, and both
  indices are clamped to the array.
\<close>

definition slice :: "'a list \<Rightarrow> int \<Rightarrow> int \<Rightarrow> 'a list" where
  "slice xs start end' =
     (let n = int (length xs);
          k = (if start < 0 then max (n + start) 0 else min start n);
          final = (if end' < 0 then max (n + end') 0 else min end' n)
      in take (nat (final - k)) (drop (nat k) xs))"

subsection \<open>Sorting\<close>

text \<open>
  The relations that a comparator induces on two elements: its result is below zero, above
  zero, or zero of either sign. A call that throws, or returns \<^verbatim>\<open>NaN\<close>, relates nothing.
\<close>

definition less_cf :: "('a \<Rightarrow> 'a \<Rightarrow> exn + number) \<Rightarrow> 'a \<Rightarrow> 'a \<Rightarrow> bool" where
  "less_cf cmp a b = (case cmp a b of Inl e \<Rightarrow> False | Inr v \<Rightarrow> negative v)"

definition greater_cf :: "('a \<Rightarrow> 'a \<Rightarrow> exn + number) \<Rightarrow> 'a \<Rightarrow> 'a \<Rightarrow> bool" where
  "greater_cf cmp a b = (case cmp a b of Inl e \<Rightarrow> False | Inr v \<Rightarrow> positive v)"

definition equal_cf :: "('a \<Rightarrow> 'a \<Rightarrow> exn + number) \<Rightarrow> 'a \<Rightarrow> 'a \<Rightarrow> bool" where
  "equal_cf cmp a b = (case cmp a b of Inl e \<Rightarrow> False | Inr v \<Rightarrow> v = Fin 0)"

definition throws :: "exn + 'b \<Rightarrow> bool" where
  "throws r = (case r of Inl e \<Rightarrow> True | Inr v \<Rightarrow> False)"

text \<open>
  A comparator is a consistent ordering of the elements of a list when every call returns a
  number other than \<^verbatim>\<open>NaN\<close>, an element equals itself, one element is below another just
  when the other is above it, and equality and being below are transitive.
\<close>

definition consistent :: "('a \<Rightarrow> 'a \<Rightarrow> exn + number) \<Rightarrow> 'a list \<Rightarrow> bool" where
  "consistent cmp xs =
     ((\<forall>a\<in>set xs. equal_cf cmp a a) \<and>
      (\<forall>a\<in>set xs. \<forall>b\<in>set xs.
         (less_cf cmp a b \<or> greater_cf cmp a b \<or> equal_cf cmp a b) \<and>
         less_cf cmp a b = greater_cf cmp b a) \<and>
      (\<forall>a\<in>set xs. \<forall>b\<in>set xs. \<forall>c\<in>set xs.
         (equal_cf cmp a b \<and> equal_cf cmp b c \<longrightarrow> equal_cf cmp a c) \<and>
         (less_cf cmp a b \<and> less_cf cmp b c \<longrightarrow> less_cf cmp a c)))"

text \<open>Stable insertion: an element moves behind another only when it is above it.\<close>

fun insertSorted :: "('a \<Rightarrow> 'a \<Rightarrow> exn + number) \<Rightarrow> 'a \<Rightarrow> 'a list \<Rightarrow> 'a list" where
  "insertSorted cmp x [] = [x]"
| "insertSorted cmp x (y # ys) =
     (if greater_cf cmp x y then y # insertSorted cmp x ys else x # y # ys)"

text \<open>
  The elements of a list in the order of a list of positions: a position that is repeated
  or out of range is passed over, and the elements whose positions are not listed follow in
  their order. Every list of positions so gives a rearrangement of the elements.
\<close>

definition arrange :: "nat list \<Rightarrow> 'a list \<Rightarrow> 'a list" where
  "arrange p xs =
     map (\<lambda>i. xs ! i)
       (filter (\<lambda>i. i < length xs) (remdups p) @ filter (\<lambda>i. i \<notin> set p) [0..<length xs])"

text \<open>
  \<^verbatim>\<open>Array.prototype.sort(cmp)\<close> on the list of campaigns. With fewer than two elements the
  comparator is not called. Otherwise every element is compared with another at least once,
  and a call that throws ends the sort with its exception; the comparator of this program
  throws on two elements just when it throws on one of them taken twice, which is what the
  definition looks for. When the comparator is a consistent ordering of the elements, the
  language fixes the result: the stable sorted arrangement, which insertion gives. In every
  other case the elements are rearranged as the engine chooses.
\<close>

definition Array_sort ::
  "runtime \<Rightarrow> (CampaignData \<Rightarrow> CampaignData \<Rightarrow> exn + number) \<Rightarrow> CampaignData list
     \<Rightarrow> exn + CampaignData list" where
  "Array_sort rt cmp xs =
     (if length xs < 2 then Inr xs
      else
        (case List.find (\<lambda>x. throws (cmp x x)) xs of
           Some x \<Rightarrow> (case cmp x x of Inl e \<Rightarrow> Inl e | Inr v \<Rightarrow> Inr xs)
         | None \<Rightarrow>
             if consistent cmp xs then Inr (foldr (insertSorted cmp) xs [])
             else Inr (arrange (sort_other rt cmp xs) xs)))"

section \<open>The ledger and the application state\<close>

text \<open>
  Modelled from the spec: the module \<^verbatim>\<open>./contract\<close> (\<^verbatim>\<open>getContractReadOnly\<close>,
  \<^verbatim>\<open>getContractWithSigner\<close>) and the contract behind it are not part of the sources. The
  spec gives the store as \<^verbatim>\<open>get(key)\<close>, which returns the empty byte string on a missing
  key, \<^verbatim>\<open>set(key, value)\<close>, last write wins, and \<^verbatim>\<open>isAvailable()\<close>, over a transport
  that may fail. A ledger is the content of the store, what the two factory functions
  return (an exception, no contract, or a contract), which calls fail, and the calls issued
  so far. A call that fails leaves the content as it is.
\<close>

datatype call = IsAvailable | GetData string | SetData string string

record ledger =
  readOnly :: "exn + bool"
  withSigner :: "exn + bool"
  available :: "exn + bool"
  getFault :: "string \<Rightarrow> exn option"
  setFault :: "string \<Rightarrow> exn option"
  kv :: "string \<Rightarrow> string"
  calls :: "call list"

definition getContractReadOnly :: "ledger \<Rightarrow> exn + bool" where
  "getContractReadOnly l = readOnly l"

definition getContractWithSigner :: "ledger \<Rightarrow> exn + bool" where
  "getContractWithSigner l = withSigner l"

definition isAvailable :: "ledger \<Rightarrow> (exn + bool) \<times> ledger" where
  "isAvailable l = (available l, l\<lparr>calls := calls l @ [IsAvailable]\<rparr>)"

definition getData :: "ledger \<Rightarrow> string \<Rightarrow> (exn + string) \<times> ledger" where
  "getData l key =
     ((case getFault l key of Some e \<Rightarrow> Inl e | None \<Rightarrow> Inr (kv l key)),
      l\<lparr>calls := calls l @ [GetData key]\<rparr>)"

definition setData :: "ledger \<Rightarrow> string \<Rightarrow> string \<Rightarrow> (exn + unit) \<times> ledger" where
  "setData l key bytes =
     (case setFault l key of
        Some e \<Rightarrow> (Inl e, l\<lparr>calls := calls l @ [SetData key bytes]\<rparr>)
      | None \<Rightarrow> (Inr (), l\<lparr>kv := (kv l)(key := bytes), calls := calls l @ [SetData key bytes]\<rparr>))"

datatype txkind = Pending | Success | Failure

record txstatus =
  visible :: bool
  kind :: txkind
  text_of :: string

datatype logline =
    ContractNotAvailable
  | KeysParseError exn
  | CampaignParseError jsval exn
  | CampaignLoadError jsval exn
  | CampaignsLoadError exn

record form =
  form_name :: jsval
  form_servers :: jsval
  form_bandwidth :: jsval
  form_impressions :: jsval
  form_duration :: jsval

text \<open>The component's state that the operations read or write, the console and the alerts.\<close>

record app =
  account :: string
  provider :: bool
  campaigns :: "CampaignData list"
  isRefreshing :: bool
  loading :: bool
  creating :: bool
  transactionStatus :: txstatus
  newCampaignData :: form
  currentPage :: int
  console :: "logline list"
  alerts :: "string list"

text \<open>\<^verbatim>\<open>try { ... } catch (e) { ... }\<close> and \<^verbatim>\<open>finally { ... }\<close> on a result with a state.\<close>

definition try_catch ::
  "(exn + 'a) \<times> 's \<Rightarrow> (exn \<Rightarrow> 's \<Rightarrow> (exn + 'a) \<times> 's) \<Rightarrow> (exn + 'a) \<times> 's" where
  "try_catch r handler = (case r of (Inl e, s) \<Rightarrow> handler e s | (Inr x, s) \<Rightarrow> (Inr x, s))"

definition try_finally :: "(exn + 'a) \<times> 's \<Rightarrow> ('s \<Rightarrow> 's) \<Rightarrow> (exn + 'a) \<times> 's" where
  "try_finally r cleanup = (case r of (x, s) \<Rightarrow> (x, cleanup s))"

section \<open>Loading the campaign list: \<^verbatim>\<open>loadCampaigns\<close>\<close>

text \<open>
  The object pushed on the list for one key (lines 118 to 127). Reading a property of
  \<^verbatim>\<open>null\<close> throws, so a record blob that parses to \<^verbatim>\<open>null\<close> yields no campaign.
\<close>

definition campaignOf :: "jsval \<Rightarrow> jsval \<Rightarrow> exn + CampaignData" where
  "campaignOf key campaignData =
     (if nullish campaignData then Inl TypeError
      else Inr \<lparr>id' = key,
                name = propOf campaignData ''name'',
                encryptedData = propOf campaignData ''data'',
                timestamp = propOf campaignData ''timestamp'',
                owner = propOf campaignData ''owner'',
                carbonFootprint = orElse (propOf campaignData ''carbonFootprint'') (JNum (Fin 0)),
                status = orElse (propOf campaignData ''status'') (JStr ''processing''),
                details = propOf campaignData ''details''\<rparr>)"

text \<open>The key of a record, \<^verbatim>\<open>`campaign_${key}`\<close>: on the string that the key was
  converted to, and on a key that converts to a string.\<close>

definition campaignKey :: "string \<Rightarrow> string" where
  "campaignKey k = ''campaign_'' @ k"

definition recordKey :: "runtime \<Rightarrow> jsval \<Rightarrow> string" where
  "recordKey rt key = campaignKey (toString rt key)"

text \<open>
  The body of the loop over the keys (lines 113 to 134), on the contract, the list and the
  console. When the key cannot be converted to a string, the template literal of line 114
  throws; the handler of line 133 converts the same key for its message and throws again,
  and this exception leaves the loop. A key that was converted at line 114 is converted
  again without fail in the handlers of lines 129 and 133.
\<close>

definition loadOne ::
  "runtime \<Rightarrow> jsval \<Rightarrow> ledger \<times> CampaignData list \<times> logline list
     \<Rightarrow> (exn + unit) \<times> ledger \<times> CampaignData list \<times> logline list" where
  "loadOne rt key s =
     (case s of (l, list, con) \<Rightarrow>
        (case ToString rt key of
           Inl e \<Rightarrow> (Inl e, l, list, con)
         | Inr k \<Rightarrow>
             (case getData l (campaignKey k) of
                (Inl e, l1) \<Rightarrow> (Inr (), l1, list, con @ [CampaignLoadError key e])
              | (Inr campaignBytes, l1) \<Rightarrow>
                  if length campaignBytes > 0 then
                    (case decode rt campaignBytes of
                       Inl e \<Rightarrow> (Inr (), l1, list, con @ [CampaignParseError key e])
                     | Inr campaignData \<Rightarrow>
                         (case campaignOf key campaignData of
                            Inl e \<Rightarrow> (Inr (), l1, list, con @ [CampaignParseError key e])
                          | Inr c \<Rightarrow> (Inr (), l1, list @ [c], con)))
                  else (Inr (), l1, list, con))))"

text \<open>The loop \<^verbatim>\<open>for (const key of keys)\<close> of line 112, which an exception leaves.\<close>

fun loadKeys ::
  "runtime \<Rightarrow> jsval list \<Rightarrow> ledger \<times> CampaignData list \<times> logline list
     \<Rightarrow> (exn + unit) \<times> ledger \<times> CampaignData list \<times> logline list" where
  "loadKeys rt [] s = (Inr (), s)"
| "loadKeys rt (key # ks) s =
     (case loadOne rt key s of
        (Inl e, s') \<Rightarrow> (Inl e, s')
      | (Inr u, s') \<Rightarrow> loadKeys rt ks s')"

text \<open>The index (lines 100 to 108): empty unless the blob is non-empty and parses.\<close>

definition parseKeys :: "runtime \<Rightarrow> string \<Rightarrow> jsval \<times> logline list" where
  "parseKeys rt keysBytes =
     (if length keysBytes > 0 then
        (case decode rt keysBytes of
           Inl e \<Rightarrow> (JArr [], [KeysParseError e])
         | Inr v \<Rightarrow> (v, []))
      else (JArr [], []))"

text \<open>
  \<^verbatim>\<open>for (const key of keys)\<close>: an array gives its elements, a string its characters, and
  any other value that JSON can denote is not iterable.
\<close>

fun iterate :: "jsval \<Rightarrow> exn + jsval list" where
  "iterate (JArr vs) = Inr vs"
| "iterate (JStr s) = Inr (map (\<lambda>c. JStr [c]) s)"
| "iterate v = Inl TypeError"

text \<open>
  The comparator \<^verbatim>\<open>(a, b) => b.timestamp - a.timestamp\<close>: the left operand is converted
  to a number first, and either conversion may throw.
\<close>

definition compareTimestamp :: "runtime \<Rightarrow> CampaignData \<Rightarrow> CampaignData \<Rightarrow> exn + number" where
  "compareTimestamp rt a b =
     (case ToNumber rt (timestamp b) of
        Inl e \<Rightarrow> Inl e
      | Inr tb \<Rightarrow> (case ToNumber rt (timestamp a) of Inl e \<Rightarrow> Inl e | Inr ta \<Rightarrow> Inr (subN tb ta)))"

text \<open>
  The body of the \<^verbatim>\<open>try\<close> of lines 89 to 138. The list is stored by
  \<^verbatim>\<open>setCampaigns\<close> after the sort; an exception of the loop or of the sort leaves it as
  it was.
\<close>

definition loadCampaigns_try :: "runtime \<Rightarrow> ledger \<times> app \<Rightarrow> (exn + unit) \<times> ledger \<times> app" where
  "loadCampaigns_try rt s =
     (case s of (l, a) \<Rightarrow>
        (case getContractReadOnly l of
           Inl e \<Rightarrow> (Inl e, l, a)
         | Inr contract \<Rightarrow>
             if \<not> contract then (Inr (), l, a)
             else
               (case isAvailable l of
                  (Inl e, l1) \<Rightarrow> (Inl e, l1, a)
                | (Inr avail, l1) \<Rightarrow>
                    if \<not> avail then (Inr (), l1, a\<lparr>console := console a @ [ContractNotAvailable]\<rparr>)
                    else
                      (case getData l1 ''campaign_keys'' of
                         (Inl e, l2) \<Rightarrow> (Inl e, l2, a)
                       | (Inr keysBytes, l2) \<Rightarrow>
                           (case parseKeys rt keysBytes of
                              (keys, lg) \<Rightarrow>
                                (case iterate keys of
                                   Inl e \<Rightarrow> (Inl e, l2, a\<lparr>console := console a @ lg\<rparr>)
                                 | Inr ks \<Rightarrow>
                                     (case loadKeys rt ks (l2, [], console a @ lg) of
                                        (Inl e, l3, list, con) \<Rightarrow> (Inl e, l3, a\<lparr>console := con\<rparr>)
                                      | (Inr u, l3, list, con) \<Rightarrow>
                                          (case Array_sort rt (compareTimestamp rt) list of
                                             Inl e \<Rightarrow> (Inl e, l3, a\<lparr>console := con\<rparr>)
                                           | Inr ordered \<Rightarrow>
                                               (Inr (), l3,
                                                a\<lparr>campaigns := ordered, console := con\<rparr>)))))))))"

text \<open>
  \<^verbatim>\<open>loadCampaigns\<close> (lines 86 to 145): the body above inside
  \<^verbatim>\<open>try { ... } catch (e) { console.error(...) } finally { ... }\<close>.
\<close>

definition loadCampaigns :: "runtime \<Rightarrow> ledger \<times> app \<Rightarrow> (exn + unit) \<times> ledger \<times> app" where
  "loadCampaigns rt s =
     (case s of (l, a) \<Rightarrow>
        try_finally
          (try_catch (loadCampaigns_try rt (l, a\<lparr>isRefreshing := True\<rparr>))
             (\<lambda>e (l', a'). (Inr (), l', a'\<lparr>console := console a' @ [CampaignsLoadError e]\<rparr>)))
          (\<lambda>(l', a'). (l', a'\<lparr>isRefreshing := False, loading := False\<rparr>)))"

section \<open>The compute transition: \<^verbatim>\<open>calculateCarbon\<close>\<close>

text \<open>\<^verbatim>\<open>campaignData.details.k\<close>: both property reads may throw.\<close>

definition metric :: "jsval \<Rightarrow> string \<Rightarrow> exn + jsval" where
  "metric campaignData k =
     (case getProp campaignData ''details'' of
        Inl e \<Rightarrow> Inl e
      | Inr d \<Rightarrow> getProp d k)"

text \<open>\<^verbatim>\<open>campaignData.details.k * c\<close>: the metric is read, converted to a number, which may
  throw, and multiplied.\<close>

definition weighted :: "runtime \<Rightarrow> jsval \<Rightarrow> string \<Rightarrow> number \<Rightarrow> exn + number" where
  "weighted rt campaignData k c =
     (case metric campaignData k of
        Inl e \<Rightarrow> Inl e
      | Inr v \<Rightarrow> (case ToNumber rt v of Inl e \<Rightarrow> Inl e | Inr n \<Rightarrow> Inr (mulN n c)))"

text \<open>
  The formula of lines 277 to 282, the operands from left to right. The literals
  \<^verbatim>\<open>0.5\<close>, \<^verbatim>\<open>0.02\<close>, \<^verbatim>\<open>0.001\<close> and \<^verbatim>\<open>0.1\<close> are the binary64 values nearest to
  them, and every product and every sum is rounded.
\<close>

definition carbonOf :: "runtime \<Rightarrow> jsval \<Rightarrow> exn + number" where
  "carbonOf rt campaignData =
     (case weighted rt campaignData ''servers'' (binary64 (5 / 10)) of Inl e \<Rightarrow> Inl e | Inr s \<Rightarrow>
      (case weighted rt campaignData ''bandwidth'' (binary64 (2 / 100)) of Inl e \<Rightarrow> Inl e | Inr b \<Rightarrow>
       (case weighted rt campaignData ''impressions'' (binary64 (1 / 1000)) of Inl e \<Rightarrow> Inl e | Inr i \<Rightarrow>
        (case weighted rt campaignData ''duration'' (binary64 (1 / 10)) of Inl e \<Rightarrow> Inl e | Inr d \<Rightarrow>
           Inr (Math_round (addN (addN (addN s b) i) d))))))"

text \<open>\<^verbatim>\<open>{...campaignData, carbonFootprint: carbon, status: "completed"}\<close>.\<close>

definition updatedCampaign :: "jsval \<Rightarrow> number \<Rightarrow> jsval" where
  "updatedCampaign campaignData carbon =
     JObj (setProp ''status'' (JStr ''completed'')
            (setProp ''carbonFootprint'' (JNum carbon) (ownProps campaignData)))"

text \<open>
  The body of the \<^verbatim>\<open>try\<close> of lines 261 to 305. The id is converted to a string at
  line 269, which may throw, and again, then without fail, at line 291.
\<close>

definition calculateCarbon_try ::
  "runtime \<Rightarrow> jsval \<Rightarrow> ledger \<times> app \<Rightarrow> (exn + unit) \<times> ledger \<times> app" where
  "calculateCarbon_try rt campaignId s =
     (case s of (l, a) \<Rightarrow>
        (case getContractWithSigner l of
           Inl e \<Rightarrow> (Inl e, l, a)
         | Inr contract \<Rightarrow>
             if \<not> contract then (Inl (Error ''Failed to get contract with signer''), l, a)
             else
               (case ToString rt campaignId of
                  Inl e \<Rightarrow> (Inl e, l, a)
                | Inr k \<Rightarrow>
                    (case getData l (campaignKey k) of
                       (Inl e, l1) \<Rightarrow> (Inl e, l1, a)
                     | (Inr campaignBytes, l1) \<Rightarrow>
                         if length campaignBytes = 0
                         then (Inl (Error ''Campaign not found''), l1, a)
                         else
                           (case decode rt campaignBytes of
                              Inl e \<Rightarrow> (Inl e, l1, a)
                            | Inr campaignData \<Rightarrow>
                                (case carbonOf rt campaignData of
                                   Inl e \<Rightarrow> (Inl e, l1, a)
                                 | Inr carbon \<Rightarrow>
                                     (case setData l1 (campaignKey k)
                                             (encode rt (updatedCampaign campaignData carbon)) of
                                        (Inl e, l2) \<Rightarrow> (Inl e, l2, a)
                                      | (Inr u, l2) \<Rightarrow>
                                          loadCampaigns rt
                                            (l2, a\<lparr>transactionStatus :=
                                                    \<lparr>visible = True, kind = Success,
                                                     text_of = ''Carbon footprint calculated successfully!''\<rparr>\<rparr>))))))))"

text \<open>
  \<^verbatim>\<open>calculateCarbon\<close> (lines 248 to 317). Without a provider it alerts and returns. The
  three seconds of simulated computation and the timers that hide the status message again
  are not modelled.
\<close>

definition calculateCarbon ::
  "runtime \<Rightarrow> jsval \<Rightarrow> ledger \<times> app \<Rightarrow> (exn + unit) \<times> ledger \<times> app" where
  "calculateCarbon rt campaignId s =
     (case s of (l, a) \<Rightarrow>
        if \<not> provider a then (Inr (), l, a\<lparr>alerts := alerts a @ [''Please connect wallet first'']\<rparr>)
        else
          try_catch
            (calculateCarbon_try rt campaignId
               (l, a\<lparr>transactionStatus :=
                       \<lparr>visible = True, kind = Pending,
                        text_of = ''Calculating carbon footprint with FHE...''\<rparr>\<rparr>))
            (\<lambda>e (l', a').
               (Inr (), l',
                a'\<lparr>transactionStatus :=
                     \<lparr>visible = True, kind = Failure,
                      text_of = ''Calculation failed: '' @
                        (if message rt e = [] then ''Unknown error'' else message rt e)\<rparr>\<rparr>)))"

section \<open>Creating a campaign: \<^verbatim>\<open>submitCampaign\<close>\<close>








section \<open>Derived views\<close>

text \<open>\<^verbatim>\<open>Array.prototype.reduce\<close> with a callback that may throw.\<close>

fun reduce :: "('b \<Rightarrow> 'a \<Rightarrow> exn + 'b) \<Rightarrow> 'a list \<Rightarrow> 'b \<Rightarrow> exn + 'b" where
  "reduce f [] acc = Inr acc"
| "reduce f (x # xs) acc = (case f acc x of Inl e \<Rightarrow> Inl e | Inr acc' \<Rightarrow> reduce f xs acc')"

text \<open>The statistics of lines 52 to 56. The sum of line 55 is a number or a string, and the
  division of line 56 converts it to a number.\<close>

definition completedCount :: "CampaignData list \<Rightarrow> nat" where
  "completedCount cs = length (filter (\<lambda>c. status c = JStr ''completed'') cs)"

definition processingCount :: "CampaignData list \<Rightarrow> nat" where
  "processingCount cs = length (filter (\<lambda>c. status c = JStr ''processing'') cs)"

definition totalCarbon :: "runtime \<Rightarrow> CampaignData list \<Rightarrow> exn + jsval" where
  "totalCarbon rt cs =
     reduce (\<lambda>sum c. jsPlus rt sum (orElse (carbonFootprint c) (JNum (Fin 0)))) cs (JNum (Fin 0))"

definition avgCarbon :: "runtime \<Rightarrow> CampaignData list \<Rightarrow> exn + jsval" where
  "avgCarbon rt cs =
     (case totalCarbon rt cs of
        Inl e \<Rightarrow> Inl e
      | Inr t \<Rightarrow>
          Inr (if length cs > 0
               then JNum (divN (toNumber rt t) (Fin (of_nat (length cs))))
               else JNum (Fin 0)))"

text \<open>
  \<^verbatim>\<open>isOwner\<close> (lines 348 to 350). The address is a campaign's owner; calling
  \<^verbatim>\<open>toLowerCase\<close> on anything but a string throws.
\<close>

definition isOwner :: "runtime \<Rightarrow> app \<Rightarrow> jsval \<Rightarrow> exn + bool" where
  "isOwner rt a address =
     (case address of
        JStr s \<Rightarrow> Inr (toLowerCase rt (account a) = toLowerCase rt s)
      | _ \<Rightarrow> Inl TypeError)"

text \<open>The buttons of a row of the table (lines 619 to 641).\<close>

datatype action = Calculate | Details

definition rowActions :: "runtime \<Rightarrow> app \<Rightarrow> CampaignData \<Rightarrow> exn + action list" where
  "rowActions rt a campaign =
     (case isOwner rt a (owner campaign) of
        Inl e \<Rightarrow> Inl e
      | Inr mine \<Rightarrow>
          Inr ((if mine \<and> status campaign = JStr ''processing'' then [Calculate] else []) @
               (if status campaign = JStr ''completed'' then [Details] else [])))"

text \<open>Pagination (lines 50 and 381 to 387), on the filtered list.\<close>

definition itemsPerPage :: int where
  "itemsPerPage = 5"

definition indexOfLastItem :: "int \<Rightarrow> int" where
  "indexOfLastItem page = page * itemsPerPage"

definition indexOfFirstItem :: "int \<Rightarrow> int" where
  "indexOfFirstItem page = indexOfLastItem page - itemsPerPage"

definition currentItems :: "'a list \<Rightarrow> int \<Rightarrow> 'a list" where
  "currentItems filteredCampaigns page =
     slice filteredCampaigns (indexOfFirstItem page) (indexOfLastItem page)"

definition totalPages :: "'a list \<Rightarrow> int" where
  "totalPages filteredCampaigns =
     \<lceil>(of_nat (length filteredCampaigns) :: rat) / of_int itemsPerPage\<rceil>"

definition paginate :: "int \<Rightarrow> app \<Rightarrow> app" where
  "paginate pageNumber a = a\<lparr>currentPage := pageNumber\<rparr>"

text \<open>
  The page numbers that a click on the pagination bar passes to \<^verbatim>\<open>paginate\<close> (lines 583
  and 646 to 674): the bar is rendered when the page shows an item and there is more than
  one page; a disabled button does nothing.
\<close>

definition paginationRequests :: "'a list \<Rightarrow> int \<Rightarrow> int list" where
  "paginationRequests filteredCampaigns page =
     (if length (currentItems filteredCampaigns page) = 0 then []
      else if \<not> totalPages filteredCampaigns > 1 then []
      else (if page = 1 then [] else [page - 1]) @
           map (\<lambda>i. int i + 1) [0..<nat (totalPages filteredCampaigns)] @
           (if page = totalPages filteredCampaigns then [] else [page + 1]))"

text \<open>
  The chart (lines 389 to 427). It is drawn in a render that has evaluated line 55 before,
  where every footprint was added to the sum: a footprint whose conversion throws ends the
  render there, so the conversions of the chart do not throw.
\<close>

record bar =
  bar_key :: jsval
  bar_label :: string
  bar_width :: number
  bar_value :: jsval

datatype chart = NoData | NoCompleted | Bars "bar list"

fun mapE :: "('a \<Rightarrow> exn + 'b) \<Rightarrow> 'a list \<Rightarrow> exn + 'b list" where
  "mapE f [] = Inr []"
| "mapE f (x # xs) =
     (case f x of
        Inl e \<Rightarrow> Inl e
      | Inr y \<Rightarrow> (case mapE f xs of Inl e \<Rightarrow> Inl e | Inr ys \<Rightarrow> Inr (y # ys)))"

text \<open>One bar; \<^verbatim>\<open>campaign.name.substring(0, 10)\<close> throws unless the name is a string.\<close>

definition chartBar :: "runtime \<Rightarrow> number \<Rightarrow> CampaignData \<Rightarrow> exn + bar" where
  "chartBar rt maxCarbon campaign =
     (case name campaign of
        JStr s \<Rightarrow>
          Inr \<lparr>bar_key = id' campaign,
               bar_label = take 10 s @ ''...'',
               bar_width = mulN (divN (toNumber rt (carbonFootprint campaign)) maxCarbon) (Fin 100),
               bar_value = carbonFootprint campaign\<rparr>
      | _ \<Rightarrow> Inl TypeError)"

definition completedCampaigns :: "CampaignData list \<Rightarrow> CampaignData list" where
  "completedCampaigns cs = filter (\<lambda>c. status c = JStr ''completed'') cs"

definition maxCarbon :: "runtime \<Rightarrow> CampaignData list \<Rightarrow> number" where
  "maxCarbon rt cs = Math_max (map (\<lambda>c. toNumber rt (carbonFootprint c)) (completedCampaigns cs))"

definition renderCarbonChart :: "runtime \<Rightarrow> CampaignData list \<Rightarrow> exn + chart" where
  "renderCarbonChart rt cs =
     (if length cs = 0 then Inr NoData
      else if length (completedCampaigns cs) = 0 then Inr NoCompleted
      else
        (case mapE (chartBar rt (maxCarbon rt cs)) (slice (completedCampaigns cs) 0 5) of
           Inl e \<Rightarrow> Inl e
         | Inr bars \<Rightarrow> Inr (Bars bars)))"

section \<open>Auxiliary definitions\<close>

text \<open>A call that writes to the store.\<close>

fun isWrite :: "call \<Rightarrow> bool" where
  "isWrite (SetData k v) = True"
| "isWrite c = False"

text \<open>The second ledger is the first after calls that do not write.\<close>

definition extends :: "ledger \<Rightarrow> ledger \<Rightarrow> bool" where
  "extends l l' = (\<exists>rs. l' = l\<lparr>calls := calls l @ rs\<rparr> \<and> filter isWrite rs = [])"

text \<open>
  What the loader keeps of a key of the index, stated apart from its loop: the campaign of
  the key's record blob when the blob can be read, is not empty, parses, and is not
  \<^verbatim>\<open>null\<close>.
\<close>

definition loadable :: "runtime \<Rightarrow> ledger \<Rightarrow> jsval \<Rightarrow> CampaignData option" where
  "loadable rt l key =
     (if getFault l (recordKey rt key) \<noteq> None then None
      else if kv l (recordKey rt key) = [] then None
      else
        (case decode rt (kv l (recordKey rt key)) of
           Inl e \<Rightarrow> None
         | Inr d \<Rightarrow>
             if nullish d then None
             else (case campaignOf key d of Inl e \<Rightarrow> None | Inr c \<Rightarrow> Some c)))"

text \<open>The keys that the loop runs over, from the index blob.\<close>

definition indexKeys :: "runtime \<Rightarrow> ledger \<Rightarrow> exn + jsval list" where
  "indexKeys rt l = iterate (fst (parseKeys rt (kv l ''campaign_keys'')))"

text \<open>
  Fixtures for the examples: the component's initial state (lines 26 to 50) for a given
  account, a campaign of the list with the fields that the views read, and a runtime whose
  JSON codec is a table of texts and their values, any other text being malformed, which
  folds the letters A to Z only and leaves an array that it cannot order as it is.
\<close>

definition initialApp :: "string \<Rightarrow> bool \<Rightarrow> app" where
  "initialApp acct wallet =
     \<lparr>account = acct, provider = wallet, campaigns = [], isRefreshing = False,
      loading = True, creating = False,
      transactionStatus = \<lparr>visible = False, kind = Pending, text_of = []\<rparr>,
      newCampaignData =
        \<lparr>form_name = JStr [], form_servers = JNum (Fin 0), form_bandwidth = JNum (Fin 0),
         form_impressions = JNum (Fin 0), form_duration = JNum (Fin 0)\<rparr>,
      currentPage = 1, console = [], alerts = []\<rparr>"

definition campaign :: "string \<Rightarrow> rat \<Rightarrow> string \<Rightarrow> rat \<Rightarrow> string \<Rightarrow> CampaignData" where
  "campaign k t who c st =
     \<lparr>id' = JStr k, name = JStr k, encryptedData = JStr ''FHE-'', timestamp = JNum (Fin t),
      owner = JStr who, carbonFootprint = JNum (Fin c), status = JStr st,
      details = JUndefined\<rparr>"

definition lowerChar :: "char \<Rightarrow> char" where
  "lowerChar c =
     (if 65 \<le> (of_char c :: int) \<and> (of_char c :: int) \<le> 90 then char_of ((of_char c :: int) + 32)
      else c)"

definition tableRuntime :: "(string \<times> jsval) list \<Rightarrow> runtime" where
  "tableRuntime tbl =
     \<lparr>JSON_parse = (\<lambda>s. case map_of tbl s of Some v \<Rightarrow> Inr v | None \<Rightarrow> Inl SyntaxError),
      JSON_stringify =
        (\<lambda>v. case map_of (map (\<lambda>(s, v). (v, s)) tbl) v of Some s \<Rightarrow> s | None \<Rightarrow> ''?''),
      toUtf8String = Inr,
      toUtf8Bytes = (\<lambda>s. s),
      StringToNumber_other = (\<lambda>s. NaN),
      NumberToString_other = (\<lambda>n. ''?''),
      toLowerCase = map lowerChar,
      base64 = (\<lambda>s. s),
      engine_message = (\<lambda>e. ''engine error''),
      sort_other = (\<lambda>cmp xs. [])\<rparr>"

definition storeOf :: "(string \<times> string) list \<Rightarrow> ledger" where
  "storeOf blobs =
     \<lparr>readOnly = Inr True, withSigner = Inr True, available = Inr True,
      getFault = (\<lambda>k. None), setFault = (\<lambda>k. None),
      kv = (\<lambda>k. case map_of blobs k of Some b \<Rightarrow> b | None \<Rightarrow> []),
      calls = []\<rparr>"

text \<open>Stores for the examples, with the JSON texts their blobs hold.\<close>

definition sortTexts :: "(string \<times> jsval) list" where
  \<open>sortTexts =
     [(''["a","b","c"]'', JArr [JStr ''a'', JStr ''b'', JStr ''c'']),
      (''{"name":"A","timestamp":100}'', JObj [(''name'', JStr ''A''), (''timestamp'', JNum (Fin 100))]),
      (''{"name":"B","timestamp":200}'', JObj [(''name'', JStr ''B''), (''timestamp'', JNum (Fin 200))]),
      (''{"name":"C","timestamp":100}'', JObj [(''name'', JStr ''C''), (''timestamp'', JNum (Fin 100))])]\<close>

definition sortStore :: ledger where
  \<open>sortStore = storeOf
     [(''campaign_keys'', ''["a","b","c"]''),
      (''campaign_a'', ''{"name":"A","timestamp":100}''),
      (''campaign_b'', ''{"name":"B","timestamp":200}''),
      (''campaign_c'', ''{"name":"C","timestamp":100}'')]\<close>

text \<open>The first failure of the transport that the loader meets before it reads a record.\<close>

definition transportFailure :: "ledger \<Rightarrow> exn option" where
  "transportFailure l =
     (case readOnly l of
        Inl e \<Rightarrow> Some e
      | Inr contract \<Rightarrow>
          if \<not> contract then None
          else
            (case available l of
               Inl e \<Rightarrow> Some e
             | Inr avail \<Rightarrow> if \<not> avail then None else getFault l ''campaign_keys''))"

text \<open>A store that cannot be reached: every call fails.\<close>

definition unreachable :: ledger where
  "unreachable =
     \<lparr>readOnly = Inr True, withSigner = Inr True, available = Inl (Error ''network error''),
      getFault = (\<lambda>k. Some (Error ''network error'')),
      setFault = (\<lambda>k. Some (Error ''network error'')),
      kv = (\<lambda>k. []), calls = []\<rparr>"








definition unorderedTexts :: "(string \<times> jsval) list" where
  \<open>unorderedTexts =
     [(''["a","b","c"]'', JArr [JStr ''a'', JStr ''b'', JStr ''c'']),
      (''{"name":"A","timestamp":100}'', JObj [(''name'', JStr ''A''), (''timestamp'', JNum (Fin 100))]),
      (''{"name":"B"}'', JObj [(''name'', JStr ''B'')]),
      (''{"name":"C","timestamp":200}'', JObj [(''name'', JStr ''C''), (''timestamp'', JNum (Fin 200))])]\<close>

definition unorderedStore :: ledger where
  \<open>unorderedStore = storeOf
     [(''campaign_keys'', ''["a","b","c"]''),
      (''campaign_a'', ''{"name":"A","timestamp":100}''),
      (''campaign_b'', ''{"name":"B"}''),
      (''campaign_c'', ''{"name":"C","timestamp":200}'')]\<close>

text \<open>A store whose one record has a string for its footprint.\<close>

definition stringTexts :: "(string \<times> jsval) list" where
  \<open>stringTexts =
     [(''["a"]'', JArr [JStr ''a'']),
      (''{"name":"S","timestamp":100,"carbonFootprint":"5","status":"completed"}'',
       JObj [(''name'', JStr ''S''), (''timestamp'', JNum (Fin 100)),
             (''carbonFootprint'', JStr ''5''), (''status'', JStr ''completed'')])]\<close>

definition stringStore :: ledger where
  \<open>stringStore = storeOf
     [(''campaign_keys'', ''["a"]''),
      (''campaign_a'', ''{"name":"S","timestamp":100,"carbonFootprint":"5","status":"completed"}'')]\<close>


definition seconds :: "CampaignData \<Rightarrow> rat" where
  "seconds c = (case timestamp c of JNum (Fin r) \<Rightarrow> r | _ \<Rightarrow> 0)"

text \<open>The campaign of the spec's scenario as a JSON object, and stores that hold it.\<close>

definition metricProps :: "(string \<times> jsval) list" where
  "metricProps =
     [(''servers'', JNum (Fin 2)), (''bandwidth'', JNum (Fin 10)),
      (''impressions'', JNum (Fin 1000)), (''duration'', JNum (Fin 5))]"

definition campaignProps :: "rat \<Rightarrow> string \<Rightarrow> (string \<times> jsval) list" where
  "campaignProps carbon st =
     [(''name'', JStr ''Camp1''), (''timestamp'', JNum (Fin 1700000000)),
      (''owner'', JStr ''0xOwner''), (''carbonFootprint'', JNum (Fin carbon)),
      (''status'', JStr st), (''details'', JObj metricProps)]"

definition campaignJson :: "rat \<Rightarrow> string \<Rightarrow> jsval" where
  "campaignJson carbon st = JObj (campaignProps carbon st)"

definition computeTexts :: "(string \<times> jsval) list" where
  \<open>computeTexts =
     [(''["c1"]'', JArr [JStr ''c1'']),
      (''{"name":"Camp1","timestamp":1700000000,"owner":"0xOwner","carbonFootprint":0,"status":"processing","details":{"servers":2,"bandwidth":10,"impressions":1000,"duration":5}}'',
       campaignJson 0 ''processing''),
      (''{"name":"Camp1","timestamp":1700000000,"owner":"0xOwner","carbonFootprint":3,"status":"completed","details":{"servers":2,"bandwidth":10,"impressions":1000,"duration":5}}'',
       campaignJson 3 ''completed''),
      (''{"name":"Camp1","timestamp":1700000000,"owner":"0xOwner","carbonFootprint":99,"status":"completed","details":{"servers":2,"bandwidth":10,"impressions":1000,"duration":5}}'',
       campaignJson 99 ''completed''),
      (''{"name":"Camp1"}'', JObj [(''name'', JStr ''Camp1'')])]\<close>


definition completedStore :: ledger where
  \<open>completedStore = storeOf
     [(''campaign_keys'', ''["c1"]''),
      (''campaign_c1'', ''{"name":"Camp1","timestamp":1700000000,"owner":"0xOwner","carbonFootprint":99,"status":"completed","details":{"servers":2,"bandwidth":10,"impressions":1000,"duration":5}}'')]\<close>

definition bareStore :: ledger where
  \<open>bareStore = storeOf
     [(''campaign_keys'', ''["c1"]''), (''campaign_c1'', ''{"name":"Camp1"}'')]\<close>

text \<open>The widths of the bars of a rendered chart, and six completed campaigns, newest first.\<close>

definition barWidths :: "exn + chart \<Rightarrow> number list" where
  "barWidths r = (case r of Inr (Bars bs) \<Rightarrow> map bar_width bs | _ \<Rightarrow> [])"

definition sixCompleted :: "CampaignData list" where
  "sixCompleted =
     [campaign ''f'' 6 ''0x1'' 1 ''completed'', campaign ''e'' 5 ''0x1'' 1 ''completed'',
      campaign ''d'' 4 ''0x1'' 1 ''completed'', campaign ''c'' 3 ''0x1'' 1 ''completed'',
      campaign ''b'' 2 ''0x1'' 1 ''completed'', campaign ''a'' 1 ''0x1'' 10 ''completed'']"









section \<open>Binary64 values\<close>

text \<open>
  Rounding keeps the sign of a value that is not below the least positive binary64 value in
  magnitude; every finite result is a multiple of that value; so the difference of two
  different binary64 values is rounded to a number of its own sign.
\<close>

lemma bitlen_lower: "0 < p \<Longrightarrow> 2 ^ nat (bitlen p - 1) \<le> p"
  using bitlen_bounds[of p] by simp

lemma bitlen_upper: "0 < q \<Longrightarrow> q < 2 ^ nat (bitlen q)"
  using bitlen_bounds[of q] by simp

lemma ilog2_lower:
  assumes "0 < p" "0 < q"
  shows "(2::rat) powi (ilog2 p q) \<le> of_int p / of_int q"
proof -
  define d where "d = bitlen p - bitlen q"
  have bp: "0 < bitlen p"
    using bitlen_bounds[OF assms(1)] bitlen_nonneg[of p] assms(1)
    by (cases "bitlen p = 0") auto
  have bq: "0 < bitlen q"
    using bitlen_bounds[OF assms(2)] bitlen_nonneg[of q] assms(2)
    by (cases "bitlen q = 0") auto
  define t where "t \<longleftrightarrow> (if 0 \<le> d then q * 2 ^ nat d \<le> p else q \<le> p * 2 ^ nat (- d))"
  have il: "ilog2 p q = (if t then d else d - 1)"
    by (simp add: ilog2_def Let_def d_def t_def)
  show ?thesis
  proof (cases t)
    case True
    then have e: "ilog2 p q = d" by (simp add: il)
    note t = True[unfolded t_def]
    show ?thesis
    proof (cases "0 \<le> d")
      case True
      with t have "q * 2 ^ nat d \<le> p" by simp
      then have "(of_int (q * 2 ^ nat d) :: rat) \<le> of_int p" by (simp only: of_int_le_iff)
      then have "(of_int q :: rat) * 2 ^ nat d \<le> of_int p" by simp
      then have "(2::rat) ^ nat d \<le> of_int p / of_int q"
        using assms by (simp add: pos_le_divide_eq mult.commute)
      then show ?thesis using True by (simp add: e power_int_def)
    next
      case False
      with t have "q \<le> p * 2 ^ nat (- d)" by simp
      then have "(of_int q :: rat) \<le> of_int (p * 2 ^ nat (- d))" by (simp only: of_int_le_iff)
      then have "(of_int q :: rat) \<le> of_int p * 2 ^ nat (- d)" by simp
      then have "1 / (2::rat) ^ nat (- d) \<le> of_int p / of_int q"
        using assms by (simp add: pos_le_divide_eq field_simps)
      then show ?thesis using False by (simp add: e power_int_def power_one_over)
    qed
  next
    case False
    then have e: "ilog2 p q = d - 1" by (simp add: il)
    have 1: "(2::rat) ^ nat (bitlen p - 1) \<le> of_int p"
      using bitlen_lower[OF assms(1)] by (metis of_int_le_iff of_int_numeral of_int_power)
    have 2: "(of_int q :: rat) < 2 ^ nat (bitlen q)"
      using bitlen_upper[OF assms(2)] by (metis of_int_less_iff of_int_numeral of_int_power)
    have "d - 1 = int (nat (bitlen p - 1)) - int (nat (bitlen q))"
      using bp bq by (simp add: d_def)
    then have "(2::rat) powi (d - 1) = 2 powi (int (nat (bitlen p - 1)) - int (nat (bitlen q)))"
      by simp
    also have "\<dots> = 2 powi int (nat (bitlen p - 1)) / 2 powi int (nat (bitlen q))"
      by (rule power_int_diff) simp
    finally have 3: "(2::rat) powi (d - 1) = 2 ^ nat (bitlen p - 1) / 2 ^ nat (bitlen q)"
      by (simp only: power_int_of_nat)
    have "(2::rat) ^ nat (bitlen p - 1) / 2 ^ nat (bitlen q) \<le> of_int p / of_int q"
      using 1 2 assms by (intro frac_le) simp_all
    then show ?thesis by (simp add: e 3)
  qed
qed

lemma roundDiv_ge: "0 < b \<Longrightarrow> b \<le> a \<Longrightarrow> 1 \<le> roundDiv a b"
proof -
  assume b: "0 < b" and ab: "b \<le> a"
  have "0 < a div b" using b ab pos_imp_zdiv_pos_iff by blast
  then have "1 \<le> a div b" by simp
  then show ?thesis by (simp add: roundDiv_def Let_def)
qed

lemma significand_ge:
  assumes "0 < p" "0 < q" "(2::rat) powi k \<le> of_int p / of_int q"
  shows "1 \<le> significand p q k"
proof (cases "0 \<le> k")
  case True
  have "(2::rat) ^ nat k * of_int q \<le> of_int p"
    using assms True by (simp add: power_int_def pos_le_divide_eq)
  then have "(of_int (q * 2 ^ nat k) :: rat) \<le> of_int p" by (simp add: mult.commute)
  then have "q * 2 ^ nat k \<le> p" by (simp only: of_int_le_iff)
  then show ?thesis using True assms by (simp add: significand_def roundDiv_ge)
next
  case False
  have h: "(2::rat) powi k = 1 / 2 ^ nat (- k)"
    using False by (simp add: power_int_def power_one_over)
  have "1 / (2::rat) ^ nat (- k) \<le> of_int p / of_int q"
    using assms(3) unfolding h .
  then have "1 / (2::rat) ^ nat (- k) * of_int q \<le> of_int p"
    using assms by (simp add: pos_le_divide_eq)
  then have "(of_int q :: rat) \<le> of_int (p * 2 ^ nat (- k))" by (simp add: field_simps)
  then have "q \<le> p * 2 ^ nat (- k)" by (simp only: of_int_le_iff)
  then show ?thesis using False assms by (simp add: significand_def roundDiv_ge)
qed

lemma scale2_pos: "0 < scale2 m k \<longleftrightarrow> 0 < m"
  by (simp add: scale2_def zero_less_mult_iff zero_less_divide_iff)

lemma scale2_neg: "scale2 m k < 0 \<longleftrightarrow> m < 0"
  by (simp add: scale2_def mult_less_0_iff divide_less_0_iff)

lemma binary64_sign:
  assumes "least = - 1074" and "(2::rat) powi least \<le> \<bar>x\<bar>"
  shows "binary64 x \<noteq> NaN \<and> positive (binary64 x) = (0 < x) \<and> negative (binary64 x) = (x < 0)"
proof -
  obtain p q where pq: "quotient_of x = (p, q)" by (cases "quotient_of x")
  have q: "0 < q" using pq by (rule quotient_of_denom_pos)
  have x: "x = of_int p / of_int q" using pq by (rule quotient_of_div)
  have "0 < \<bar>x\<bar>" using assms(2) by (rule less_le_trans[rotated]) simp
  then have p0: "p \<noteq> 0" using x by auto
  have ax: "\<bar>x\<bar> = of_int \<bar>p\<bar> / of_int q" using q by (simp add: x)
  have sx: "(0 < x) = (0 < p)" "(x < 0) = (p < 0)"
    using q by (simp_all add: x zero_less_divide_iff divide_less_0_iff)
  define e where "e = max (ilog2 \<bar>p\<bar> q) (- 1022)"
  define n where "n = significand \<bar>p\<bar> q (e - 52)"
  have low: "(2::rat) powi (e - 52) \<le> of_int \<bar>p\<bar> / of_int q"
  proof (cases "ilog2 \<bar>p\<bar> q \<le> - 1022")
    case True
    then have "e - 52 = least" by (simp add: e_def assms(1))
    then show ?thesis using assms(2) ax by simp
  next
    case False
    then have "e = ilog2 \<bar>p\<bar> q" by (simp add: e_def)
    moreover have "(2::rat) powi (e - 52) \<le> 2 powi e"
      by (rule power_int_increasing) simp_all
    moreover have "(2::rat) powi (ilog2 \<bar>p\<bar> q) \<le> of_int \<bar>p\<bar> / of_int q"
      using p0 q by (intro ilog2_lower) simp_all
    ultimately show ?thesis by simp
  qed
  have n1: "1 \<le> n"
    unfolding n_def using p0 q low by (intro significand_ge) simp_all
  have b: "binary64 x =
      (if 1023 < e \<or> (e = 1023 \<and> n = 2 ^ 53) then Infty (0 < p)
       else Fin (scale2 (sgn p * n) (e - 52)))"
    using p0 by (auto simp add: binary64_def pq Let_def e_def n_def)
  have m: "(0 < sgn p * n) = (0 < p)" "(sgn p * n < 0) = (p < 0)"
    using n1 p0 by (simp_all add: zero_less_mult_iff mult_less_0_iff)
  have np: "(\<not> 0 < p) = (p < 0)" using p0 by auto
  show ?thesis
    by (simp add: b sx scale2_pos scale2_neg m np)
qed

lemma scale2_grid:
  assumes "- int N \<le> k"
  shows "\<exists>j::int. scale2 m k = of_int j / 2 ^ N"
proof (cases "0 \<le> k")
  case True
  have "scale2 m k = of_int (m * 2 ^ nat k * 2 ^ N) / 2 ^ N"
    using True by (simp add: scale2_def)
  then show ?thesis by blast
next
  case False
  define a where "a = nat (- k)"
  have aN: "a \<le> N" using assms False by (simp add: a_def)
  have "(2::rat) ^ N = 2 ^ a * 2 ^ (N - a)"
    using aN by (simp add: power_add[symmetric])
  then have "scale2 m k = of_int (m * 2 ^ (N - a)) / 2 ^ N"
    using False by (simp add: scale2_def a_def)
  then show ?thesis by blast
qed

lemma binary64_grid:
  assumes "binary64 x = Fin y" and "N = 1074"
  shows "\<exists>j::int. y = of_int j / 2 ^ N"
proof -
  obtain p q where pq: "quotient_of x = (p, q)" by (cases "quotient_of x")
  show ?thesis
  proof (cases "p = 0")
    case True
    then have "y = 0" using assms(1) by (simp add: binary64_def pq)
    then have "y = of_int 0 / 2 ^ N" by simp
    then show ?thesis by blast
  next
    case False
    define e where "e = max (ilog2 \<bar>p\<bar> q) (- 1022)"
    define n where "n = significand \<bar>p\<bar> q (e - 52)"
    have b: "binary64 x =
        (if 1023 < e \<or> (e = 1023 \<and> n = 2 ^ 53) then Infty (0 < p)
         else Fin (scale2 (sgn p * n) (e - 52)))"
      using False by (auto simp add: binary64_def pq Let_def e_def n_def)
    have y: "y = scale2 (sgn p * n) (e - 52)"
      using assms(1) unfolding b by (simp split: if_splits)
    have "- int N \<le> e - 52" by (simp add: e_def assms(2))
    then show ?thesis unfolding y by (rule scale2_grid)
  qed
qed

lemma grid_apart:
  assumes "a = of_int i / 2 ^ N" "b = of_int j / 2 ^ N" "a \<noteq> b"
  shows "(2::rat) powi (- int N) \<le> \<bar>a - b\<bar>"
proof -
  have ij: "i \<noteq> j" using assms by auto
  have "a - b = of_int (i - j) / 2 ^ N"
    by (simp add: assms diff_divide_distrib)
  then have "\<bar>a - b\<bar> = of_int \<bar>i - j\<bar> / 2 ^ N" by simp
  moreover have "(1::rat) \<le> of_int \<bar>i - j\<bar>" using ij by simp
  ultimately have "1 / 2 ^ N \<le> \<bar>a - b\<bar>"
    by (simp add: divide_right_mono)
  then show ?thesis by (simp add: power_int_minus inverse_eq_divide)
qed


lemma binary64_zero: "binary64 0 = Fin 0"
  by (simp add: binary64_def)

lemma subN_sign:
  assumes "binary64 a = Fin a" and "binary64 b = Fin b"
  shows "subN (Fin b) (Fin a) \<noteq> NaN \<and>
         positive (subN (Fin b) (Fin a)) = (a < b) \<and>
         negative (subN (Fin b) (Fin a)) = (b < a) \<and>
         (subN (Fin b) (Fin a) = Fin 0) = (a = b)"
proof (cases "a = b")
  case True
  then show ?thesis by (simp add: subN_def binary64_zero)
next
  case False
  obtain i :: int where i: "a = of_int i / 2 ^ 1074"
    using binary64_grid[OF assms(1) refl] by blast
  obtain j :: int where j: "b = of_int j / 2 ^ 1074"
    using binary64_grid[OF assms(2) refl] by blast
  have "(2::rat) powi (- int 1074) \<le> \<bar>b - a\<bar>"
    using j i False by (intro grid_apart) auto
  then have low: "(2::rat) powi (- 1074) \<le> \<bar>b + - a\<bar>" by simp
  note s = binary64_sign[OF refl low]
  have nz: "binary64 (b + - a) \<noteq> Fin 0"
  proof
    assume z: "binary64 (b + - a) = Fin 0"
    from s False show False unfolding z by auto
  qed
  show ?thesis using s nz False by (auto simp add: subN_def)
qed

section \<open>The loader reads only\<close>

lemma extends_refl: "extends l l"
  unfolding extends_def by (rule exI[of _ "[]"]) simp

lemma extends_trans: "extends l l1 \<Longrightarrow> extends l1 l2 \<Longrightarrow> extends l l2"
  unfolding extends_def
proof (elim exE conjE)
  fix rs rs'
  assume a: "l1 = l\<lparr>calls := calls l @ rs\<rparr>" "filter isWrite rs = []"
    "l2 = l1\<lparr>calls := calls l1 @ rs'\<rparr>" "filter isWrite rs' = []"
  show "\<exists>rs. l2 = l\<lparr>calls := calls l @ rs\<rparr> \<and> filter isWrite rs = []"
    by (rule exI[of _ "rs @ rs'"]) (simp add: a)
qed

lemma extends_getData: "extends l (snd (getData l k))"
  unfolding extends_def getData_def by (rule exI[of _ "[GetData k]"]) simp

lemma extends_isAvailable: "extends l (snd (isAvailable l))"
  unfolding extends_def isAvailable_def by (rule exI[of _ "[IsAvailable]"]) simp

lemma getData_ext: "getData l k = (r, l') \<Longrightarrow> extends l l'"
  using extends_getData[of l k] by simp

lemma isAvailable_ext: "isAvailable l = (r, l') \<Longrightarrow> extends l l'"
  using extends_isAvailable[of l] by simp

lemma extends_kv: "extends l l' \<Longrightarrow> kv l' = kv l \<and> getFault l' = getFault l \<and> setFault l' = setFault l"
  unfolding extends_def by auto

lemma loadable_cong: "kv l' = kv l \<Longrightarrow> getFault l' = getFault l \<Longrightarrow> loadable rt l' = loadable rt l"
  by (rule ext) (simp add: loadable_def)

lemma recordKey_converted: "ToString rt key = Inr k \<Longrightarrow> recordKey rt key = campaignKey k"
  by (simp add: recordKey_def toString_def)

lemma loadOne_throws: "ToString rt key = Inl e \<Longrightarrow> loadOne rt key (l, list, con) = (Inl e, l, list, con)"
  by (simp add: loadOne_def)

lemma loadOne_list:
  assumes k: "ToString rt key = Inr k"
  shows "\<exists>l1 con1. loadOne rt key (l, list, con) =
           (Inr (), l1, list @ (case loadable rt l key of None \<Rightarrow> [] | Some c \<Rightarrow> [c]), con1) \<and>
         extends l l1"
proof -
  note rk = recordKey_converted[OF k]
  obtain r l1 where g: "getData l (campaignKey k) = (r, l1)"
    by (cases "getData l (campaignKey k)") auto
  have e: "extends l l1" using g by (rule getData_ext)
  have r: "r = (case getFault l (campaignKey k) of Some e \<Rightarrow> Inl e
                | None \<Rightarrow> Inr (kv l (campaignKey k)))"
    using g by (auto simp add: getData_def)
  show ?thesis
  proof (cases "getFault l (campaignKey k)")
    case (Some x)
    then show ?thesis using e g r by (simp add: loadOne_def loadable_def k rk)
  next
    case None
    show ?thesis
    proof (cases "kv l (campaignKey k) = []")
      case True
      with None show ?thesis using e g r by (simp add: loadOne_def loadable_def k rk)
    next
      case False
      show ?thesis
      proof (cases "decode rt (kv l (campaignKey k))")
        case (Inl x)
        with None False show ?thesis using e g r by (simp add: loadOne_def loadable_def k rk)
      next
        case (Inr d)
        with None False show ?thesis using e g r
          by (cases "nullish d") (simp_all add: loadOne_def loadable_def k rk campaignOf_def)
      qed
    qed
  qed
qed

lemma loadOne_ext: "loadOne rt key (l, list, con) = (r, l', list', con') \<Longrightarrow> extends l l'"
proof (cases "ToString rt key")
  case (Inl e)
  assume "loadOne rt key (l, list, con) = (r, l', list', con')"
  then show ?thesis using loadOne_throws[OF Inl, of l list con] by (simp add: extends_refl)
next
  case (Inr k)
  assume "loadOne rt key (l, list, con) = (r, l', list', con')"
  then show ?thesis using loadOne_list[OF Inr, of l list con] by auto
qed

lemma loadKeys_ext: "loadKeys rt ks (l, list, con) = (r, l', list', con') \<Longrightarrow> extends l l'"
proof (induction ks arbitrary: l list con)
  case Nil
  then show ?case by (simp add: extends_refl)
next
  case (Cons k ks)
  obtain r1 l1 list1 con1 where s: "loadOne rt k (l, list, con) = (r1, l1, list1, con1)"
    by (cases "loadOne rt k (l, list, con)") auto
  have e: "extends l l1" using s by (rule loadOne_ext)
  show ?case
  proof (cases r1)
    case (Inl x)
    then show ?thesis using Cons.prems s e by simp
  next
    case (Inr u)
    then have "loadKeys rt ks (l1, list1, con1) = (r, l', list', con')"
      using Cons.prems s by simp
    from Cons.IH[OF this] e show ?thesis by (rule extends_trans[rotated])
  qed
qed

lemma loadKeys_list:
  assumes "\<forall>k\<in>set ks. \<exists>s. ToString rt k = Inr s"
  shows "\<exists>l' con'. loadKeys rt ks (l, list, con) =
           (Inr (), l', list @ List.map_filter (loadable rt l) ks, con') \<and> extends l l'"
  using assms
proof (induction ks arbitrary: l list con)
  case Nil
  show ?case by (simp add: List.map_filter_simps extends_refl)
next
  case (Cons k ks)
  from Cons.prems obtain s where s: "ToString rt k = Inr s" by auto
  from loadOne_list[OF s, of l list con] obtain l1 con1 where
    1: "loadOne rt k (l, list, con) =
          (Inr (), l1, list @ (case loadable rt l k of None \<Rightarrow> [] | Some c \<Rightarrow> [c]), con1)"
    and e1: "extends l l1" by blast
  have c: "loadable rt l1 = loadable rt l"
    using extends_kv[OF e1] by (intro loadable_cong) simp_all
  from Cons.prems have "\<forall>k\<in>set ks. \<exists>s. ToString rt k = Inr s" by simp
  from Cons.IH[OF this, of l1 "list @ (case loadable rt l k of None \<Rightarrow> [] | Some c \<Rightarrow> [c])" con1]
  obtain l' con' where
    2: "loadKeys rt ks (l1, list @ (case loadable rt l k of None \<Rightarrow> [] | Some c \<Rightarrow> [c]), con1) =
          (Inr (), l',
           (list @ (case loadable rt l k of None \<Rightarrow> [] | Some c \<Rightarrow> [c])) @
             List.map_filter (loadable rt l) ks, con')"
    and e2: "extends l1 l'" unfolding c by blast
  have m: "(list @ (case loadable rt l k of None \<Rightarrow> [] | Some c \<Rightarrow> [c])) @
             List.map_filter (loadable rt l) ks = list @ List.map_filter (loadable rt l) (k # ks)"
    by (cases "loadable rt l k") (simp_all add: List.map_filter_simps)
  have "loadKeys rt (k # ks) (l, list, con) =
          (Inr (), l', list @ List.map_filter (loadable rt l) (k # ks), con')"
    using 1 2 unfolding m by simp
  moreover have "extends l l'" using e1 e2 by (rule extends_trans)
  ultimately show ?case by blast
qed

lemma loadKeys_throws:
  assumes "\<exists>k\<in>set ks. \<exists>e. ToString rt k = Inl e"
  shows "\<exists>e l' list' con'. loadKeys rt ks (l, list, con) = (Inl e, l', list', con')"
  using assms
proof (induction ks arbitrary: l list con)
  case Nil
  then show ?case by simp
next
  case (Cons k ks)
  show ?case
  proof (cases "ToString rt k")
    case (Inl e)
    show ?thesis using loadOne_throws[OF Inl, of l list con] by simp
  next
    case (Inr s)
    from loadOne_list[OF Inr, of l list con] obtain l1 list1 con1 where
      1: "loadOne rt k (l, list, con) = (Inr (), l1, list1, con1)" by blast
    from Cons.prems Inr have "\<exists>k\<in>set ks. \<exists>e. ToString rt k = Inl e" by auto
    from Cons.IH[OF this, of l1 list1 con1] show ?thesis using 1 by simp
  qed
qed

lemma loadCampaigns_try_ext: "loadCampaigns_try rt (l, a) = (r, l', a') \<Longrightarrow> extends l l'"
proof -
  assume t: "loadCampaigns_try rt (l, a) = (r, l', a')"
  show ?thesis
  proof (cases "getContractReadOnly l = Inr True \<and> available l = Inr True \<and>
                getFault l ''campaign_keys'' = None")
    case False
    then show ?thesis using t
      by (auto simp add: loadCampaigns_try_def isAvailable_def getData_def extends_def
          split: sum.splits if_splits option.splits intro: exI[of _ "[IsAvailable]"]
            exI[of _ "[]"] exI[of _ "[IsAvailable, GetData ''campaign_keys'']"])
  next
    case True
    obtain l1 where l1: "isAvailable l = (Inr True, l1)" "extends l l1"
      using True extends_isAvailable[of l] by (cases "isAvailable l") (auto simp: isAvailable_def)
    obtain l2 where l2: "getData l1 ''campaign_keys'' = (Inr (kv l ''campaign_keys''), l2)"
      "extends l1 l2"
      using True extends_kv[OF l1(2)] extends_getData[of l1 "''campaign_keys''"]
      by (cases "getData l1 ''campaign_keys''") (auto simp: getData_def)
    have e2: "extends l l2" using l1(2) l2(2) by (rule extends_trans)
    obtain keys lg where pk: "parseKeys rt (kv l ''campaign_keys'') = (keys, lg)"
      by (cases "parseKeys rt (kv l ''campaign_keys'')") auto
    show ?thesis
    proof (cases "iterate keys")
      case (Inl e)
      then show ?thesis using t True l1(1) l2(1) pk e2 by (simp add: loadCampaigns_try_def)
    next
      case (Inr ks)
      obtain r3 l3 list con where f: "loadKeys rt ks (l2, [], console a @ lg) = (r3, l3, list, con)"
        by (cases "loadKeys rt ks (l2, [], console a @ lg)") auto
      have "extends l l3" using e2 loadKeys_ext[OF f] by (rule extends_trans)
      then show ?thesis using t True l1(1) l2(1) pk Inr f
        by (auto simp add: loadCampaigns_try_def split: sum.splits)
    qed
  qed
qed

lemma loadCampaigns_of_try:
  assumes "loadCampaigns_try rt (l, a\<lparr>isRefreshing := True\<rparr>) = (r, l', a')"
  shows "loadCampaigns rt (l, a) =
     (Inr (), l',
      (case r of Inl e \<Rightarrow> a'\<lparr>console := console a' @ [CampaignsLoadError e]\<rparr> | Inr u \<Rightarrow> a')
        \<lparr>isRefreshing := False, loading := False\<rparr>)"
  using assms by (simp add: loadCampaigns_def try_finally_def try_catch_def split: sum.splits)

lemma extends_loadCampaigns: "loadCampaigns rt (l, a) = (r, l', a') \<Longrightarrow> extends l l'"
proof -
  assume t: "loadCampaigns rt (l, a) = (r, l', a')"
  obtain r1 l1 a1 where t1: "loadCampaigns_try rt (l, a\<lparr>isRefreshing := True\<rparr>) = (r1, l1, a1)"
    by (cases "loadCampaigns_try rt (l, a\<lparr>isRefreshing := True\<rparr>)") auto
  have "l' = l1" using t loadCampaigns_of_try[OF t1] by simp
  then show ?thesis using loadCampaigns_try_ext[OF t1] by simp
qed

lemma loadCampaigns_returns: "fst (loadCampaigns rt s) = Inr ()"
proof -
  obtain l a where s: "s = (l, a)" by (cases s)
  obtain r1 l1 a1 where t1: "loadCampaigns_try rt (l, a\<lparr>isRefreshing := True\<rparr>) = (r1, l1, a1)"
    by (cases "loadCampaigns_try rt (l, a\<lparr>isRefreshing := True\<rparr>)") auto
  show ?thesis unfolding s loadCampaigns_of_try[OF t1] by simp
qed

section \<open>What the loader returns\<close>


text \<open>The run of the body once the contract is there and the index has been read.\<close>

lemma loadCampaigns_try_index:
  assumes "getContractReadOnly l = Inr True" "available l = Inr True"
    "getFault l ''campaign_keys'' = None"
  shows "\<exists>l2 lg. extends l l2 \<and>
     loadCampaigns_try rt (l, a) =
       (case indexKeys rt l of
          Inl e \<Rightarrow> (Inl e, l2, a\<lparr>console := console a @ lg\<rparr>)
        | Inr ks \<Rightarrow>
            (case loadKeys rt ks (l2, [], console a @ lg) of
               (Inl e, l3, list, con) \<Rightarrow> (Inl e, l3, a\<lparr>console := con\<rparr>)
             | (Inr u, l3, list, con) \<Rightarrow>
                 (case Array_sort rt (compareTimestamp rt) list of
                    Inl e \<Rightarrow> (Inl e, l3, a\<lparr>console := con\<rparr>)
                  | Inr ordered \<Rightarrow> (Inr (), l3, a\<lparr>campaigns := ordered, console := con\<rparr>))))"
proof -
  obtain l1 where l1: "isAvailable l = (Inr True, l1)" "extends l l1"
    using assms(2) extends_isAvailable[of l] by (cases "isAvailable l") (auto simp: isAvailable_def)
  obtain l2 where l2: "getData l1 ''campaign_keys'' = (Inr (kv l ''campaign_keys''), l2)"
    "extends l1 l2"
    using assms(3) extends_kv[OF l1(2)] extends_getData[of l1 "''campaign_keys''"]
    by (cases "getData l1 ''campaign_keys''") (auto simp: getData_def)
  have e2: "extends l l2" using l1(2) l2(2) by (rule extends_trans)
  obtain keys lg where pk: "parseKeys rt (kv l ''campaign_keys'') = (keys, lg)"
    by (cases "parseKeys rt (kv l ''campaign_keys'')") auto
  have ik: "indexKeys rt l = iterate keys" by (simp add: indexKeys_def pk)
  have "loadCampaigns_try rt (l, a) =
       (case indexKeys rt l of
          Inl e \<Rightarrow> (Inl e, l2, a\<lparr>console := console a @ lg\<rparr>)
        | Inr ks \<Rightarrow>
            (case loadKeys rt ks (l2, [], console a @ lg) of
               (Inl e, l3, list, con) \<Rightarrow> (Inl e, l3, a\<lparr>console := con\<rparr>)
             | (Inr u, l3, list, con) \<Rightarrow>
                 (case Array_sort rt (compareTimestamp rt) list of
                    Inl e \<Rightarrow> (Inl e, l3, a\<lparr>console := con\<rparr>)
                  | Inr ordered \<Rightarrow> (Inr (), l3, a\<lparr>campaigns := ordered, console := con\<rparr>))))"
    unfolding ik using assms(1) l1(1) l2(1) pk by (simp add: loadCampaigns_try_def)
  then show ?thesis using e2 by blast
qed

text \<open>What the body leaves in the four cases: the index cannot be iterated; a key cannot be
  converted; the sort throws; the sort returns.\<close>

lemma loadCampaigns_try_cases:
  assumes "getContractReadOnly l = Inr True" "available l = Inr True"
    "getFault l ''campaign_keys'' = None"
  shows "(\<forall>e. indexKeys rt l = Inl e \<longrightarrow>
            fst (loadCampaigns_try rt (l, a)) = Inl e \<and>
            campaigns (snd (snd (loadCampaigns_try rt (l, a)))) = campaigns a) \<and>
         (\<forall>ks. indexKeys rt l = Inr ks \<and> (\<exists>k\<in>set ks. \<exists>e. ToString rt k = Inl e) \<longrightarrow>
            (\<exists>e. fst (loadCampaigns_try rt (l, a)) = Inl e) \<and>
            campaigns (snd (snd (loadCampaigns_try rt (l, a)))) = campaigns a) \<and>
         (\<forall>ks e. indexKeys rt l = Inr ks \<and> (\<forall>k\<in>set ks. \<exists>s. ToString rt k = Inr s) \<and>
              Array_sort rt (compareTimestamp rt) (List.map_filter (loadable rt l) ks) = Inl e \<longrightarrow>
            fst (loadCampaigns_try rt (l, a)) = Inl e \<and>
            campaigns (snd (snd (loadCampaigns_try rt (l, a)))) = campaigns a) \<and>
         (\<forall>ks cs. indexKeys rt l = Inr ks \<and> (\<forall>k\<in>set ks. \<exists>s. ToString rt k = Inr s) \<and>
              Array_sort rt (compareTimestamp rt) (List.map_filter (loadable rt l) ks) = Inr cs \<longrightarrow>
            fst (loadCampaigns_try rt (l, a)) = Inr () \<and>
            campaigns (snd (snd (loadCampaigns_try rt (l, a)))) = cs)"
proof -
  from loadCampaigns_try_index[OF assms, of rt a] obtain l2 lg where
    e2: "extends l l2" and
    t: "loadCampaigns_try rt (l, a) =
       (case indexKeys rt l of
          Inl e \<Rightarrow> (Inl e, l2, a\<lparr>console := console a @ lg\<rparr>)
        | Inr ks \<Rightarrow>
            (case loadKeys rt ks (l2, [], console a @ lg) of
               (Inl e, l3, list, con) \<Rightarrow> (Inl e, l3, a\<lparr>console := con\<rparr>)
             | (Inr u, l3, list, con) \<Rightarrow>
                 (case Array_sort rt (compareTimestamp rt) list of
                    Inl e \<Rightarrow> (Inl e, l3, a\<lparr>console := con\<rparr>)
                  | Inr ordered \<Rightarrow> (Inr (), l3, a\<lparr>campaigns := ordered, console := con\<rparr>))))"
    by blast
  have c: "loadable rt l2 = loadable rt l"
    using extends_kv[OF e2] by (intro loadable_cong) simp_all
  have 1: "fst (loadCampaigns_try rt (l, a)) = Inl e \<and>
           campaigns (snd (snd (loadCampaigns_try rt (l, a)))) = campaigns a"
    if "indexKeys rt l = Inl e" for e
    unfolding t using that by simp
  have 2: "(\<exists>e. fst (loadCampaigns_try rt (l, a)) = Inl e) \<and>
           campaigns (snd (snd (loadCampaigns_try rt (l, a)))) = campaigns a"
    if "indexKeys rt l = Inr ks" "\<exists>k\<in>set ks. \<exists>e. ToString rt k = Inl e" for ks
  proof -
    from loadKeys_throws[OF that(2), of l2 "[]" "console a @ lg"] obtain e l3 list con where
      "loadKeys rt ks (l2, [], console a @ lg) = (Inl e, l3, list, con)" by blast
    then show ?thesis unfolding t using that(1) by simp
  qed
  have 34: "\<exists>l3 con. loadKeys rt ks (l2, [], console a @ lg) =
              (Inr (), l3, List.map_filter (loadable rt l) ks, con)"
    if "\<forall>k\<in>set ks. \<exists>s. ToString rt k = Inr s" for ks
    using loadKeys_list[OF that, of l2 "[]" "console a @ lg"] unfolding c by auto
  have 3: "fst (loadCampaigns_try rt (l, a)) = Inl e \<and>
           campaigns (snd (snd (loadCampaigns_try rt (l, a)))) = campaigns a"
    if "indexKeys rt l = Inr ks" "\<forall>k\<in>set ks. \<exists>s. ToString rt k = Inr s"
      "Array_sort rt (compareTimestamp rt) (List.map_filter (loadable rt l) ks) = Inl e" for ks e
  proof -
    from 34[OF that(2)] obtain l3 con where
      "loadKeys rt ks (l2, [], console a @ lg) =
         (Inr (), l3, List.map_filter (loadable rt l) ks, con)" by blast
    then show ?thesis unfolding t using that(1,3) by simp
  qed
  have 4: "fst (loadCampaigns_try rt (l, a)) = Inr () \<and>
           campaigns (snd (snd (loadCampaigns_try rt (l, a)))) = cs"
    if "indexKeys rt l = Inr ks" "\<forall>k\<in>set ks. \<exists>s. ToString rt k = Inr s"
      "Array_sort rt (compareTimestamp rt) (List.map_filter (loadable rt l) ks) = Inr cs" for ks cs
  proof -
    from 34[OF that(2)] obtain l3 con where
      "loadKeys rt ks (l2, [], console a @ lg) =
         (Inr (), l3, List.map_filter (loadable rt l) ks, con)" by blast
    then show ?thesis unfolding t using that(1,3) by simp
  qed
  show ?thesis using 1 2 3 4 by blast
qed

text \<open>The list and the last line of the console after \<^verbatim>\<open>loadCampaigns\<close>.\<close>

lemma loadCampaigns_campaigns:
  "campaigns (snd (snd (loadCampaigns rt (l, a)))) =
     campaigns (snd (snd (loadCampaigns_try rt (l, a\<lparr>isRefreshing := True\<rparr>))))"
proof -
  obtain r1 l1 a1 where t1: "loadCampaigns_try rt (l, a\<lparr>isRefreshing := True\<rparr>) = (r1, l1, a1)"
    by (cases "loadCampaigns_try rt (l, a\<lparr>isRefreshing := True\<rparr>)") auto
  show ?thesis unfolding loadCampaigns_of_try[OF t1] t1 by (cases r1) simp_all
qed












lemma loadCampaigns_try_transport:
  assumes "transportFailure l = Some e"
  shows "\<exists>l'. loadCampaigns_try rt (l, a) = (Inl e, l', a)"
proof (cases "readOnly l")
  case (Inl x)
  then show ?thesis using assms
    by (simp add: transportFailure_def loadCampaigns_try_def getContractReadOnly_def)
next
  case (Inr contract)
  then have c: "contract" using assms by (auto simp add: transportFailure_def split: if_splits)
  show ?thesis
  proof (cases "available l")
    case (Inl x)
    then show ?thesis using assms Inr c
      by (simp add: transportFailure_def loadCampaigns_try_def getContractReadOnly_def
          isAvailable_def)
  next
    case av: (Inr avail)
    then have v: "avail" using assms Inr c
      by (auto simp add: transportFailure_def split: if_splits)
    have "getFault l ''campaign_keys'' = Some e"
      using assms Inr c av v by (simp add: transportFailure_def)
    then show ?thesis using Inr c av v
      by (simp add: loadCampaigns_try_def getContractReadOnly_def isAvailable_def getData_def)
  qed
qed

text \<open>
  C4, as the code has it. \<^verbatim>\<open>loadCampaigns\<close> writes nothing to the store and no error
  ever reaches its caller: a failure of the transport is caught at line 139 and logged,
  and the list stays as it was.
\<close>

theorem load_never_propagates:
  "fst (loadCampaigns rt (l, a)) = Inr () \<and>
   kv (fst (snd (loadCampaigns rt (l, a)))) = kv l \<and>
   filter isWrite (calls (fst (snd (loadCampaigns rt (l, a))))) = filter isWrite (calls l) \<and>
   (\<forall>e. transportFailure l = Some e \<longrightarrow>
      campaigns (snd (snd (loadCampaigns rt (l, a)))) = campaigns a \<and>
      console (snd (snd (loadCampaigns rt (l, a)))) = console a @ [CampaignsLoadError e])"
proof -
  obtain r l' a' where t: "loadCampaigns rt (l, a) = (r, l', a')"
    by (cases "loadCampaigns rt (l, a)") auto
  have e: "extends l l'" by (rule extends_loadCampaigns[OF t])
  then obtain rs where rs: "l' = l\<lparr>calls := calls l @ rs\<rparr>" "filter isWrite rs = []"
    unfolding extends_def by blast
  have f: "campaigns a' = campaigns a \<and> console a' = console a @ [CampaignsLoadError e]"
    if "transportFailure l = Some e" for e
  proof -
    from loadCampaigns_try_transport[OF that, of rt "a\<lparr>isRefreshing := True\<rparr>"]
    obtain l1 where "loadCampaigns_try rt (l, a\<lparr>isRefreshing := True\<rparr>) =
        (Inl e, l1, a\<lparr>isRefreshing := True\<rparr>)" by blast
    from loadCampaigns_of_try[OF this] t show ?thesis by auto
  qed
  show ?thesis using loadCampaigns_returns[of rt "(l, a)"] t rs f by simp
qed

theorem load_never_propagates_witness:
  "transportFailure unreachable = Some (Error ''network error'') \<and>
   fst (loadCampaigns (tableRuntime []) (unreachable, initialApp ''0x1'' True)) = Inr () \<and>
   campaigns (snd (snd (loadCampaigns (tableRuntime []) (unreachable, initialApp ''0x1'' True)))) = [] \<and>
   console (snd (snd (loadCampaigns (tableRuntime []) (unreachable, initialApp ''0x1'' True)))) =
     [CampaignsLoadError (Error ''network error'')]"
proof -
  have h: "transportFailure unreachable = Some (Error ''network error'')"
    by (simp add: transportFailure_def unreachable_def)
  from load_never_propagates[of "tableRuntime []" unreachable "initialApp ''0x1'' True"] h
  show ?thesis by (simp add: initialApp_def)
qed

text \<open>The store cannot be reached, and the call returns normally.\<close>

theorem load_transport_failure_counterexample:
  "available unreachable = Inl (Error ''network error'') \<and>
   getFault unreachable ''campaign_keys'' = Some (Error ''network error'') \<and>
   fst (loadCampaigns (tableRuntime []) (unreachable, initialApp ''0x1'' True)) = Inr ()"
  by code_simp

section \<open>The order of the list\<close>

lemma compareTimestamp_converted:
  assumes "ToNumber rt (timestamp a) = Inr (Fin ta)" "ToNumber rt (timestamp b) = Inr (Fin tb)"
  shows "compareTimestamp rt a b = Inr (subN (Fin tb) (Fin ta))"
  using assms by (simp add: compareTimestamp_def)

lemma cf_timestamps:
  assumes "ToNumber rt (timestamp a) = Inr (Fin (t a)) \<and> binary64 (t a) = Fin (t a)"
    and "ToNumber rt (timestamp b) = Inr (Fin (t b)) \<and> binary64 (t b) = Fin (t b)"
  shows "less_cf (compareTimestamp rt) a b = (t b < t a)"
    and "greater_cf (compareTimestamp rt) a b = (t a < t b)"
    and "equal_cf (compareTimestamp rt) a b = (t a = t b)"
    and "\<not> throws (compareTimestamp rt a b)"
proof -
  have c: "compareTimestamp rt a b = Inr (subN (Fin (t b)) (Fin (t a)))"
    using assms by (intro compareTimestamp_converted) simp_all
  have s: "subN (Fin (t b)) (Fin (t a)) \<noteq> NaN \<and>
         positive (subN (Fin (t b)) (Fin (t a))) = (t a < t b) \<and>
         negative (subN (Fin (t b)) (Fin (t a))) = (t b < t a) \<and>
         (subN (Fin (t b)) (Fin (t a)) = Fin 0) = (t a = t b)"
    using assms by (intro subN_sign) simp_all
  show "less_cf (compareTimestamp rt) a b = (t b < t a)" using s by (simp add: less_cf_def c)
  show "greater_cf (compareTimestamp rt) a b = (t a < t b)" using s by (simp add: greater_cf_def c)
  show "equal_cf (compareTimestamp rt) a b = (t a = t b)" using s by (simp add: equal_cf_def c)
  show "\<not> throws (compareTimestamp rt a b)" by (simp add: throws_def c)
qed

lemma cf_timestamps_set:
  assumes "\<forall>c\<in>set xs. ToNumber rt (timestamp c) = Inr (Fin (t c)) \<and> binary64 (t c) = Fin (t c)"
    and "a \<in> set xs" and "b \<in> set xs"
  shows "less_cf (compareTimestamp rt) a b = (t b < t a) \<and>
         greater_cf (compareTimestamp rt) a b = (t a < t b) \<and>
         equal_cf (compareTimestamp rt) a b = (t a = t b) \<and>
         \<not> throws (compareTimestamp rt a b)"
proof -
  have a: "ToNumber rt (timestamp a) = Inr (Fin (t a)) \<and> binary64 (t a) = Fin (t a)"
    using assms(1,2) by blast
  have b: "ToNumber rt (timestamp b) = Inr (Fin (t b)) \<and> binary64 (t b) = Fin (t b)"
    using assms(1,3) by blast
  show ?thesis using cf_timestamps[OF a b] by simp
qed

lemma consistent_timestamps:
  assumes "\<forall>c\<in>set xs. ToNumber rt (timestamp c) = Inr (Fin (t c)) \<and> binary64 (t c) = Fin (t c)"
  shows "consistent (compareTimestamp rt) xs"
  unfolding consistent_def
proof (intro conjI ballI impI)
  fix a assume "a \<in> set xs"
  then show "equal_cf (compareTimestamp rt) a a"
    using cf_timestamps_set[OF assms, of a a] by simp
next
  fix a b assume "a \<in> set xs" "b \<in> set xs"
  then show "less_cf (compareTimestamp rt) a b \<or> greater_cf (compareTimestamp rt) a b \<or>
      equal_cf (compareTimestamp rt) a b"
    using cf_timestamps_set[OF assms, of a b] by auto
next
  fix a b assume "a \<in> set xs" "b \<in> set xs"
  then show "less_cf (compareTimestamp rt) a b = greater_cf (compareTimestamp rt) b a"
    using cf_timestamps_set[OF assms, of a b] cf_timestamps_set[OF assms, of b a] by simp
next
  fix a b c assume "a \<in> set xs" "b \<in> set xs" "c \<in> set xs"
    "equal_cf (compareTimestamp rt) a b \<and> equal_cf (compareTimestamp rt) b c"
  then show "equal_cf (compareTimestamp rt) a c"
    using cf_timestamps_set[OF assms, of a b] cf_timestamps_set[OF assms, of b c]
      cf_timestamps_set[OF assms, of a c] by simp
next
  fix a b c assume "a \<in> set xs" "b \<in> set xs" "c \<in> set xs"
    "less_cf (compareTimestamp rt) a b \<and> less_cf (compareTimestamp rt) b c"
  then show "less_cf (compareTimestamp rt) a c"
    using cf_timestamps_set[OF assms, of a b] cf_timestamps_set[OF assms, of b c]
      cf_timestamps_set[OF assms, of a c] by simp
qed

lemma insertSorted_insort:
  assumes "ToNumber rt (timestamp x) = Inr (Fin (t x)) \<and> binary64 (t x) = Fin (t x)"
    and "\<forall>y\<in>set ys. ToNumber rt (timestamp y) = Inr (Fin (t y)) \<and> binary64 (t y) = Fin (t y)"
  shows "insertSorted (compareTimestamp rt) x ys = insort_key (\<lambda>c. - t c) x ys"
  using assms by (induction ys) (auto simp add: cf_timestamps)

lemma insertion_sort_key:
  assumes "\<forall>c\<in>set xs. ToNumber rt (timestamp c) = Inr (Fin (t c)) \<and> binary64 (t c) = Fin (t c)"
  shows "foldr (insertSorted (compareTimestamp rt)) xs [] = sort_key (\<lambda>c. - t c) xs"
  using assms
proof (induction xs)
  case Nil
  show ?case by simp
next
  case (Cons x xs)
  then have ih: "foldr (insertSorted (compareTimestamp rt)) xs [] = sort_key (\<lambda>c. - t c) xs"
    by simp
  have "\<forall>y\<in>set (sort_key (\<lambda>c. - t c) xs).
      ToNumber rt (timestamp y) = Inr (Fin (t y)) \<and> binary64 (t y) = Fin (t y)"
    using Cons.prems by simp
  from insertSorted_insort[OF _ this, of x] Cons.prems ih show ?case by simp
qed

lemma Array_sort_sort_key:
  assumes "\<forall>c\<in>set xs. ToNumber rt (timestamp c) = Inr (Fin (t c)) \<and> binary64 (t c) = Fin (t c)"
  shows "Array_sort rt (compareTimestamp rt) xs = Inr (sort_key (\<lambda>c. - t c) xs)"
proof (cases "length xs < 2")
  case True
  then have "xs = [] \<or> (\<exists>x. xs = [x])" by (cases xs; cases "tl xs") auto
  then show ?thesis by (auto simp add: Array_sort_def)
next
  case False
  have "List.find (\<lambda>x. throws (compareTimestamp rt x x)) xs = None"
    unfolding find_None_iff using cf_timestamps_set[OF assms] by blast
  then show ?thesis
    using False consistent_timestamps[OF assms] insertion_sort_key[OF assms]
    by (simp add: Array_sort_def)
qed

lemma sort_key_descending:
  "sorted_wrt (\<lambda>x y. t y \<le> t x) (sort_key (\<lambda>c. - t c) xs) \<and>
   mset (sort_key (\<lambda>c. - t c) xs) = mset xs \<and>
   (\<forall>v::rat. filter (\<lambda>c. t c = v) (sort_key (\<lambda>c. - t c) xs) = filter (\<lambda>c. t c = v) xs)"
proof -
  let ?f = "\<lambda>c. - t c"
  have "sorted (map ?f (sort_key ?f xs))" by (rule sorted_sort_key)
  then have s: "sorted_wrt (\<lambda>x y. t y \<le> t x) (sort_key ?f xs)"
    by (simp add: sorted_map)
  have st: "filter (\<lambda>c. t c = v) (sort_key ?f xs) = filter (\<lambda>c. t c = v) xs" for v
    using sort_key_stable[of ?f "- v" xs] by simp
  show ?thesis using s st by simp
qed

text \<open>
  C5, as the code has it. When the keys of the index can be converted to strings and the
  timestamp of every campaign that is kept converts to a finite number, a binary64 value,
  the list that \<^verbatim>\<open>loadCampaigns\<close> stores is the kept campaigns in descending order of
  timestamp, and campaigns of equal timestamp keep the order of the index.
\<close>

theorem load_sorted:
  assumes "getContractReadOnly l = Inr True" and "available l = Inr True"
    and "getFault l ''campaign_keys'' = None" and "indexKeys rt l = Inr ks"
    and "\<forall>k\<in>set ks. \<exists>s. ToString rt k = Inr s"
    and "\<forall>c\<in>set (List.map_filter (loadable rt l) ks).
           ToNumber rt (timestamp c) = Inr (Fin (t c)) \<and> binary64 (t c) = Fin (t c)"
  shows "campaigns (snd (snd (loadCampaigns rt (l, a)))) =
           sort_key (\<lambda>c. - t c) (List.map_filter (loadable rt l) ks) \<and>
         sorted_wrt (\<lambda>x y. t y \<le> t x) (campaigns (snd (snd (loadCampaigns rt (l, a))))) \<and>
         mset (campaigns (snd (snd (loadCampaigns rt (l, a))))) =
           mset (List.map_filter (loadable rt l) ks) \<and>
         (\<forall>v. filter (\<lambda>c. t c = v) (campaigns (snd (snd (loadCampaigns rt (l, a))))) =
              filter (\<lambda>c. t c = v) (List.map_filter (loadable rt l) ks))"
proof -
  let ?xs = "List.map_filter (loadable rt l) ks"
  have s: "Array_sort rt (compareTimestamp rt) ?xs = Inr (sort_key (\<lambda>c. - t c) ?xs)"
    by (rule Array_sort_sort_key[OF assms(6)])
  from loadCampaigns_try_cases[OF assms(1-3), of rt "a\<lparr>isRefreshing := True\<rparr>"] assms(4,5) s
  have "campaigns (snd (snd (loadCampaigns_try rt (l, a\<lparr>isRefreshing := True\<rparr>)))) =
      sort_key (\<lambda>c. - t c) ?xs" by blast
  then have c: "campaigns (snd (snd (loadCampaigns rt (l, a)))) = sort_key (\<lambda>c. - t c) ?xs"
    unfolding loadCampaigns_campaigns .
  show ?thesis unfolding c using sort_key_descending[of t ?xs] by simp
qed

theorem load_sorted_witness:
  \<open>getContractReadOnly sortStore = Inr True \<and> available sortStore = Inr True \<and>
   getFault sortStore ''campaign_keys'' = None \<and>
   indexKeys (tableRuntime sortTexts) sortStore = Inr [JStr ''a'', JStr ''b'', JStr ''c''] \<and>
   map (ToString (tableRuntime sortTexts)) [JStr ''a'', JStr ''b'', JStr ''c''] =
     [Inr ''a'', Inr ''b'', Inr ''c''] \<and>
   map (\<lambda>c. ToNumber (tableRuntime sortTexts) (timestamp c))
     (List.map_filter (loadable (tableRuntime sortTexts) sortStore)
        [JStr ''a'', JStr ''b'', JStr ''c'']) = [Inr (Fin 100), Inr (Fin 200), Inr (Fin 100)] \<and>
   map binary64 [100, 200] = [Fin 100, Fin 200] \<and>
   sorted_wrt (\<lambda>x y. seconds y \<le> seconds x)
     (campaigns (snd (snd (loadCampaigns (tableRuntime sortTexts)
                             (sortStore, initialApp ''0x1'' True))))) \<and>
   map name (campaigns (snd (snd (loadCampaigns (tableRuntime sortTexts)
                                    (sortStore, initialApp ''0x1'' True))))) =
     [JStr ''B'', JStr ''A'', JStr ''C'']\<close>
proof -
  let ?rt = "tableRuntime sortTexts"
  have h1: "getContractReadOnly sortStore = Inr True"
    by (simp add: getContractReadOnly_def sortStore_def storeOf_def)
  have h2: "available sortStore = Inr True" by (simp add: sortStore_def storeOf_def)
  have h3: "getFault sortStore ''campaign_keys'' = None" by (simp add: sortStore_def storeOf_def)
  have h4: "indexKeys ?rt sortStore = Inr [JStr ''a'', JStr ''b'', JStr ''c'']" by code_simp
  have h5: "\<forall>k\<in>set [JStr ''a'', JStr ''b'', JStr ''c'']. \<exists>s. ToString ?rt k = Inr s" by simp
  have h5': "map (ToString ?rt) [JStr ''a'', JStr ''b'', JStr ''c''] =
     [Inr ''a'', Inr ''b'', Inr ''c'']" by simp
  have h6: "\<forall>c\<in>set (List.map_filter (loadable ?rt sortStore) [JStr ''a'', JStr ''b'', JStr ''c'']).
      ToNumber ?rt (timestamp c) = Inr (Fin (seconds c)) \<and> binary64 (seconds c) = Fin (seconds c)"
    by code_simp
  have b: "map binary64 [100, 200] = [Fin 100, Fin 200]" by code_simp
  have m: "map (\<lambda>c. ToNumber ?rt (timestamp c))
     (List.map_filter (loadable ?rt sortStore) [JStr ''a'', JStr ''b'', JStr ''c'']) =
     [Inr (Fin 100), Inr (Fin 200), Inr (Fin 100)]"
    by code_simp
  have n: "map name (sort_key (\<lambda>c. - seconds c)
       (List.map_filter (loadable ?rt sortStore) [JStr ''a'', JStr ''b'', JStr ''c''])) =
     [JStr ''B'', JStr ''A'', JStr ''C'']"
    by code_simp
  from load_sorted[OF h1 h2 h3 h4 h5 h6, of "initialApp ''0x1'' True"]
  have c: "campaigns (snd (snd (loadCampaigns ?rt (sortStore, initialApp ''0x1'' True)))) =
      sort_key (\<lambda>c. - seconds c)
       (List.map_filter (loadable ?rt sortStore) [JStr ''a'', JStr ''b'', JStr ''c''])"
    and s: "sorted_wrt (\<lambda>x y. seconds y \<le> seconds x)
     (campaigns (snd (snd (loadCampaigns ?rt (sortStore, initialApp ''0x1'' True)))))"
    by blast+
  have "map name (campaigns (snd (snd (loadCampaigns ?rt (sortStore, initialApp ''0x1'' True))))) =
     [JStr ''B'', JStr ''A'', JStr ''C'']"
    by (simp only: c n)
  then show ?thesis using h1 h2 h3 h4 h5' m b s by blast
qed

text \<open>
  Three records in the index order A, B, C, with the timestamps 100, none and 200. Every
  comparison with B gives \<^verbatim>\<open>NaN\<close>, so the comparator is not an ordering of the three; a
  sort that leaves such an array as it is stores A before C, the older before the newer.
\<close>

theorem load_unordered_counterexample:
  \<open>map (\<lambda>c. (name c, timestamp c))
     (campaigns (snd (snd (loadCampaigns (tableRuntime unorderedTexts)
                             (unorderedStore, initialApp ''0x1'' True))))) =
     [(JStr ''A'', JNum (Fin 100)), (JStr ''B'', JUndefined), (JStr ''C'', JNum (Fin 200))] \<and>
   map (\<lambda>c. compareTimestamp (tableRuntime unorderedTexts) c
               \<lparr>id' = JStr ''b'', name = JStr ''B'', encryptedData = JUndefined,
                timestamp = JUndefined, owner = JUndefined, carbonFootprint = JNum (Fin 0),
                status = JStr ''processing'', details = JUndefined\<rparr>)
     (campaigns (snd (snd (loadCampaigns (tableRuntime unorderedTexts)
                             (unorderedStore, initialApp ''0x1'' True))))) =
     [Inr NaN, Inr NaN, Inr NaN]\<close>
  by code_simp

section \<open>The compute transition\<close>

lemma loadCampaigns_try_app:
  "loadCampaigns_try rt (l, a) = (r, l', a') \<Longrightarrow>
   transactionStatus a' = transactionStatus a \<and> account a' = account a \<and>
   provider a' = provider a \<and> alerts a' = alerts a"
  unfolding loadCampaigns_try_def
  by (auto split: prod.splits sum.splits if_splits)

lemma loadCampaigns_app:
  assumes "loadCampaigns rt (l, a) = (r, l', a')"
  shows "transactionStatus a' = transactionStatus a \<and> account a' = account a \<and>
         provider a' = provider a \<and> alerts a' = alerts a"
proof -
  obtain r1 l1 a1 where t1: "loadCampaigns_try rt (l, a\<lparr>isRefreshing := True\<rparr>) = (r1, l1, a1)"
    by (cases "loadCampaigns_try rt (l, a\<lparr>isRefreshing := True\<rparr>)") auto
  from loadCampaigns_try_app[OF t1] assms loadCampaigns_of_try[OF t1]
  show ?thesis by (cases r1) auto
qed

lemma metric_fails: "nullish v \<or> nullish (propOf v ''details'') \<Longrightarrow> metric v k = Inl TypeError"
  by (auto simp: metric_def getProp_def)


lemma carbonOf_fails:
  "nullish v \<or> nullish (propOf v ''details'') \<Longrightarrow> carbonOf rt v = Inl TypeError"
  by (simp add: carbonOf_def weighted_def metric_fails)


lemma map_of_setProp: "map_of (setProp k x kvs) = (map_of kvs)(k \<mapsto> x)"
  by (induction kvs) (auto simp: fun_eq_iff)

lemma calc_try_throws:
  assumes "getContractWithSigner l = Inr True" "ToString rt cid = Inl e"
  shows "calculateCarbon_try rt cid (l, a) = (Inl e, l, a)"
  using assms by (simp add: calculateCarbon_try_def)

lemma calc_try_unreadable:
  assumes "getContractWithSigner l = Inr True" "ToString rt cid = Inr k"
    and "getFault l (recordKey rt cid) = Some e"
  shows "calculateCarbon_try rt cid (l, a) =
           (Inl e, l\<lparr>calls := calls l @ [GetData (recordKey rt cid)]\<rparr>, a)"
  using assms unfolding recordKey_converted[OF assms(2)]
  by (simp add: calculateCarbon_try_def getData_def)

lemma calc_try_not_found:
  assumes "getContractWithSigner l = Inr True" "ToString rt cid = Inr k"
    and "getFault l (recordKey rt cid) = None" and "kv l (recordKey rt cid) = []"
  shows "calculateCarbon_try rt cid (l, a) =
           (Inl (Error ''Campaign not found''), l\<lparr>calls := calls l @ [GetData (recordKey rt cid)]\<rparr>, a)"
  using assms unfolding recordKey_converted[OF assms(2)]
  by (simp add: calculateCarbon_try_def getData_def)

lemma calc_try_unparsable:
  assumes "getContractWithSigner l = Inr True" "ToString rt cid = Inr k"
    and "getFault l (recordKey rt cid) = None"
    and "kv l (recordKey rt cid) \<noteq> []" "decode rt (kv l (recordKey rt cid)) = Inl e"
  shows "calculateCarbon_try rt cid (l, a) =
           (Inl e, l\<lparr>calls := calls l @ [GetData (recordKey rt cid)]\<rparr>, a)"
  using assms unfolding recordKey_converted[OF assms(2)]
  by (simp add: calculateCarbon_try_def getData_def)

lemma calc_try_no_formula:
  assumes "getContractWithSigner l = Inr True" "ToString rt cid = Inr k"
    and "getFault l (recordKey rt cid) = None"
    and "kv l (recordKey rt cid) \<noteq> []" "decode rt (kv l (recordKey rt cid)) = Inr v"
    and "carbonOf rt v = Inl e"
  shows "calculateCarbon_try rt cid (l, a) =
           (Inl e, l\<lparr>calls := calls l @ [GetData (recordKey rt cid)]\<rparr>, a)"
  using assms unfolding recordKey_converted[OF assms(2)]
  by (simp add: calculateCarbon_try_def getData_def)

lemma calc_try_write_fails:
  assumes "getContractWithSigner l = Inr True" "ToString rt cid = Inr k"
    and "getFault l (recordKey rt cid) = None"
    and "kv l (recordKey rt cid) \<noteq> []" "decode rt (kv l (recordKey rt cid)) = Inr v"
    and "carbonOf rt v = Inr c" "setFault l (recordKey rt cid) = Some e"
  shows "calculateCarbon_try rt cid (l, a) =
           (Inl e, l\<lparr>calls := calls l @ [GetData (recordKey rt cid),
                       SetData (recordKey rt cid) (encode rt (updatedCampaign v c))]\<rparr>, a)"
  using assms unfolding recordKey_converted[OF assms(2)]
  by (simp add: calculateCarbon_try_def getData_def setData_def)

lemma calc_try_writes:
  assumes "getContractWithSigner l = Inr True" "ToString rt cid = Inr k"
    and "getFault l (recordKey rt cid) = None"
    and "kv l (recordKey rt cid) \<noteq> []" "decode rt (kv l (recordKey rt cid)) = Inr v"
    and "carbonOf rt v = Inr c" "setFault l (recordKey rt cid) = None"
  shows "calculateCarbon_try rt cid (l, a) =
           loadCampaigns rt
             (l\<lparr>kv := (kv l)(recordKey rt cid := encode rt (updatedCampaign v c)),
                calls := calls l @ [GetData (recordKey rt cid),
                       SetData (recordKey rt cid) (encode rt (updatedCampaign v c))]\<rparr>,
              a\<lparr>transactionStatus :=
                  \<lparr>visible = True, kind = Success,
                   text_of = ''Carbon footprint calculated successfully!''\<rparr>\<rparr>)"
  using assms unfolding recordKey_converted[OF assms(2)]
  by (simp add: calculateCarbon_try_def getData_def setData_def)

lemma calc_catch:
  assumes "provider a"
    and "calculateCarbon_try rt cid
           (l, a\<lparr>transactionStatus :=
                   \<lparr>visible = True, kind = Pending,
                    text_of = ''Calculating carbon footprint with FHE...''\<rparr>\<rparr>) = (Inl e, l1, a1)"
  shows "calculateCarbon rt cid (l, a) =
           (Inr (), l1,
            a1\<lparr>transactionStatus :=
                 \<lparr>visible = True, kind = Failure,
                  text_of = ''Calculation failed: '' @
                    (if message rt e = [] then ''Unknown error'' else message rt e)\<rparr>\<rparr>)"
  using assms by (simp add: calculateCarbon_def try_catch_def)

lemma calc_pass:
  assumes "provider a"
    and "calculateCarbon_try rt cid
           (l, a\<lparr>transactionStatus :=
                   \<lparr>visible = True, kind = Pending,
                    text_of = ''Calculating carbon footprint with FHE...''\<rparr>\<rparr>) = (Inr u, l1, a1)"
  shows "calculateCarbon rt cid (l, a) = (Inr u, l1, a1)"
  using assms by (simp add: calculateCarbon_def try_catch_def)

lemma calc_fails:
  assumes "provider a" and "getContractWithSigner l = Inr True"
    and "getFault l (recordKey rt cid) = None"
    and "kv l (recordKey rt cid) = [] \<or>
         (\<exists>e. decode rt (kv l (recordKey rt cid)) = Inl e) \<or>
         (\<exists>v. decode rt (kv l (recordKey rt cid)) = Inr v \<and>
              (nullish v \<or> nullish (propOf v ''details'')))"
  shows "\<exists>e rs. filter isWrite rs = [] \<and> calculateCarbon rt cid (l, a) =
           (Inr (), l\<lparr>calls := calls l @ rs\<rparr>,
            a\<lparr>transactionStatus :=
                 \<lparr>visible = True, kind = Failure,
                  text_of = ''Calculation failed: '' @
                    (if message rt e = [] then ''Unknown error'' else message rt e)\<rparr>\<rparr>)"
proof -
  let ?a = "a\<lparr>transactionStatus :=
                   \<lparr>visible = True, kind = Pending,
                    text_of = ''Calculating carbon footprint with FHE...''\<rparr>\<rparr>"
  have "\<exists>e rs. filter isWrite rs = [] \<and>
          calculateCarbon_try rt cid (l, ?a) = (Inl e, l\<lparr>calls := calls l @ rs\<rparr>, ?a)"
  proof (cases "ToString rt cid")
    case (Inl e)
    have "calculateCarbon_try rt cid (l, ?a) = (Inl e, l\<lparr>calls := calls l @ []\<rparr>, ?a)"
      using calc_try_throws[OF assms(2) Inl, of ?a] by simp
    then show ?thesis by (intro exI[of _ e] exI[of _ "[]"]) simp
  next
    case (Inr k)
    have "\<exists>e. calculateCarbon_try rt cid (l, ?a) =
            (Inl e, l\<lparr>calls := calls l @ [GetData (recordKey rt cid)]\<rparr>, ?a)"
    proof (cases "kv l (recordKey rt cid) = []")
      case True
      show ?thesis using calc_try_not_found[OF assms(2) Inr assms(3) True] by blast
    next
      case False
      show ?thesis
      proof (cases "decode rt (kv l (recordKey rt cid))")
        case (Inl e)
        show ?thesis using calc_try_unparsable[OF assms(2) Inr assms(3) False Inl] by blast
      next
        case v: (Inr v)
        with assms(4) False have "nullish v \<or> nullish (propOf v ''details'')" by simp
        then have "carbonOf rt v = Inl TypeError" by (rule carbonOf_fails)
        from calc_try_no_formula[OF assms(2) Inr assms(3) False v this] show ?thesis by blast
      qed
    qed
    then obtain e where "calculateCarbon_try rt cid (l, ?a) =
            (Inl e, l\<lparr>calls := calls l @ [GetData (recordKey rt cid)]\<rparr>, ?a)" by blast
    then show ?thesis by (intro exI[of _ e] exI[of _ "[GetData (recordKey rt cid)]"]) simp
  qed
  then obtain e rs where rs: "filter isWrite rs = []"
    and "calculateCarbon_try rt cid (l, ?a) = (Inl e, l\<lparr>calls := calls l @ rs\<rparr>, ?a)" by blast
  from calc_catch[OF assms(1) this(2)] rs show ?thesis by auto
qed

lemma calc_succeeds:
  assumes "provider a" and "getContractWithSigner l = Inr True" and "ToString rt cid = Inr k"
    and "getFault l (recordKey rt cid) = None" and "setFault l (recordKey rt cid) = None"
    and "kv l (recordKey rt cid) \<noteq> []" and "decode rt (kv l (recordKey rt cid)) = Inr v"
    and "carbonOf rt v = Inr c"
  shows "fst (calculateCarbon rt cid (l, a)) = Inr () \<and>
         transactionStatus (snd (snd (calculateCarbon rt cid (l, a)))) =
           \<lparr>visible = True, kind = Success,
            text_of = ''Carbon footprint calculated successfully!''\<rparr> \<and>
         kv (fst (snd (calculateCarbon rt cid (l, a)))) =
           (kv l)(recordKey rt cid := encode rt (updatedCampaign v c)) \<and>
         filter isWrite (calls (fst (snd (calculateCarbon rt cid (l, a))))) =
           filter isWrite (calls l) @ [SetData (recordKey rt cid) (encode rt (updatedCampaign v c))]"
proof -
  let ?a = "a\<lparr>transactionStatus :=
                   \<lparr>visible = True, kind = Pending,
                    text_of = ''Calculating carbon footprint with FHE...''\<rparr>\<rparr>"
  let ?l2 = "l\<lparr>kv := (kv l)(recordKey rt cid := encode rt (updatedCampaign v c)),
                calls := calls l @ [GetData (recordKey rt cid),
                       SetData (recordKey rt cid) (encode rt (updatedCampaign v c))]\<rparr>"
  let ?a2 = "?a\<lparr>transactionStatus :=
                  \<lparr>visible = True, kind = Success,
                   text_of = ''Carbon footprint calculated successfully!''\<rparr>\<rparr>"
  obtain r l' a' where lc: "loadCampaigns rt (?l2, ?a2) = (r, l', a')"
    by (cases "loadCampaigns rt (?l2, ?a2)") auto
  have r: "r = Inr ()" using loadCampaigns_returns[of rt "(?l2, ?a2)"] lc by simp
  have t: "calculateCarbon_try rt cid (l, ?a) = (Inr (), l', a')"
    using calc_try_writes[OF assms(2,3,4,6,7,8,5), of ?a] lc r by simp
  have c: "calculateCarbon rt cid (l, a) = (Inr (), l', a')"
    by (rule calc_pass[OF assms(1) t])
  obtain rs where rs: "l' = ?l2\<lparr>calls := calls ?l2 @ rs\<rparr>" "filter isWrite rs = []"
    using extends_loadCampaigns[OF lc] unfolding extends_def by blast
  have ts: "transactionStatus a' = transactionStatus ?a2"
    using loadCampaigns_app[OF lc] by simp
  show ?thesis unfolding c using rs ts by simp
qed

lemma calc_writes_after:
  "filter isWrite (calls (fst (snd (calculateCarbon rt cid (l, a))))) = filter isWrite (calls l) \<or>
   (\<exists>v c. getFault l (recordKey rt cid) = None \<and> kv l (recordKey rt cid) \<noteq> [] \<and>
      decode rt (kv l (recordKey rt cid)) = Inr v \<and> carbonOf rt v = Inr c \<and>
      filter isWrite (calls (fst (snd (calculateCarbon rt cid (l, a))))) =
        filter isWrite (calls l) @ [SetData (recordKey rt cid) (encode rt (updatedCampaign v c))])"
proof (cases "provider a")
  case False
  then show ?thesis by (simp add: calculateCarbon_def)
next
  case True
  let ?a = "a\<lparr>transactionStatus :=
                   \<lparr>visible = True, kind = Pending,
                    text_of = ''Calculating carbon footprint with FHE...''\<rparr>\<rparr>"
  show ?thesis
  proof (cases "getContractWithSigner l = Inr True")
    case False
    then have "\<exists>e. calculateCarbon_try rt cid (l, ?a) = (Inl e, l, ?a)"
      by (cases "getContractWithSigner l") (auto simp: calculateCarbon_try_def)
    then obtain e where "calculateCarbon_try rt cid (l, ?a) = (Inl e, l, ?a)" by blast
    from calc_catch[OF True this] show ?thesis by simp
  next
    case signer: True
    show ?thesis
    proof (cases "ToString rt cid")
      case (Inl e)
      from calc_catch[OF True calc_try_throws[OF signer Inl, of ?a]] show ?thesis by simp
    next
      case k: (Inr k)
      show ?thesis
      proof (cases "getFault l (recordKey rt cid)")
        case (Some e)
        from calc_catch[OF True calc_try_unreadable[OF signer k Some, of ?a]]
        show ?thesis by simp
      next
        case None
        show ?thesis
        proof (cases "kv l (recordKey rt cid) = []")
          case empty: True
          from calc_catch[OF True calc_try_not_found[OF signer k None empty, of ?a]]
          show ?thesis by simp
        next
          case nonempty: False
          show ?thesis
          proof (cases "decode rt (kv l (recordKey rt cid))")
            case (Inl e)
            from calc_catch[OF True calc_try_unparsable[OF signer k None nonempty Inl, of ?a]]
            show ?thesis by simp
          next
            case v: (Inr v)
            show ?thesis
            proof (cases "carbonOf rt v")
              case (Inl e)
              from calc_catch[OF True calc_try_no_formula[OF signer k None nonempty v Inl, of ?a]]
              show ?thesis by simp
            next
              case c: (Inr c)
              show ?thesis
              proof (cases "setFault l (recordKey rt cid)")
                case nofault: None
                from calc_succeeds[OF True signer k None nofault nonempty v c] None nonempty v c
                show ?thesis by blast
              next
                case (Some e)
                from calc_catch[OF True
                    calc_try_write_fails[OF signer k None nonempty v c Some, of ?a]]
                  None nonempty v c
                show ?thesis by simp
              qed
            qed
          qed
        qed
      qed
    qed
  qed
qed

text \<open>
  The formula on the metrics of the spec's scenario, as numbers and as the strings that the
  dialog stores, and on the metrics 1, 10, 600 and 2, where the sum of the four rounded
  products is the binary64 value below 1.5.
\<close>

lemma formula_examples:
  "carbonOf (tableRuntime []) (campaignJson 0 ''processing'') = Inr (Fin 3) \<and>
   carbonOf (tableRuntime [])
     (JObj [(''details'', JObj [(''servers'', JStr ''2''), (''bandwidth'', JStr ''10''),
                               (''impressions'', JStr ''1000''), (''duration'', JStr ''5'')])]) =
     Inr (Fin 3) \<and>
   carbonOf (tableRuntime [])
     (JObj [(''details'', JObj [(''servers'', JNum (Fin 1)), (''bandwidth'', JNum (Fin 10)),
                               (''impressions'', JNum (Fin 600)), (''duration'', JNum (Fin 2))])]) =
     Inr (Fin 1)"
  by code_simp



text \<open>
  C1, as the code has it. \<^verbatim>\<open>calculateCarbon\<close> rejects an id with no record blob with the
  message \<^verbatim>\<open>Campaign not found\<close> and writes nothing. It checks neither the owner nor the
  status: whatever the account and whatever the owner and the status of the record, when
  the blob is read and parses, the formula is evaluated and the write succeeds, it ends in
  the success status and has written the record again, with the footprint computed anew.
  The owner and the status are checked by the row of the table, which offers the Calculate
  button only when the account equals the record's owner, compared in lower case, and the
  status is \<^verbatim>\<open>processing\<close>.
\<close>

theorem compute_guards:
  "(provider a \<and> getContractWithSigner l = Inr True \<and> ToString rt cid = Inr k \<and>
    getFault l (recordKey rt cid) = None \<and> kv l (recordKey rt cid) = [] \<longrightarrow>
      fst (calculateCarbon rt cid (l, a)) = Inr () \<and>
      transactionStatus (snd (snd (calculateCarbon rt cid (l, a)))) =
        \<lparr>visible = True, kind = Failure,
         text_of = ''Calculation failed: Campaign not found''\<rparr> \<and>
      kv (fst (snd (calculateCarbon rt cid (l, a)))) = kv l \<and>
      filter isWrite (calls (fst (snd (calculateCarbon rt cid (l, a))))) =
        filter isWrite (calls l)) \<and>
   (provider a \<and> getContractWithSigner l = Inr True \<and> ToString rt cid = Inr k \<and>
    getFault l (recordKey rt cid) = None \<and> setFault l (recordKey rt cid) = None \<and>
    kv l (recordKey rt cid) \<noteq> [] \<and> decode rt (kv l (recordKey rt cid)) = Inr v \<and>
    carbonOf rt v = Inr n \<longrightarrow>
      fst (calculateCarbon rt cid (l, a)) = Inr () \<and>
      transactionStatus (snd (snd (calculateCarbon rt cid (l, a)))) =
        \<lparr>visible = True, kind = Success,
         text_of = ''Carbon footprint calculated successfully!''\<rparr> \<and>
      kv (fst (snd (calculateCarbon rt cid (l, a)))) =
        (kv l)(recordKey rt cid := encode rt (updatedCampaign v n)) \<and>
      filter isWrite (calls (fst (snd (calculateCarbon rt cid (l, a))))) =
        filter isWrite (calls l) @ [SetData (recordKey rt cid) (encode rt (updatedCampaign v n))] \<and>
      propOf (updatedCampaign v n) ''status'' = JStr ''completed'' \<and>
      propOf (updatedCampaign v n) ''carbonFootprint'' = JNum n) \<and>
   (rowActions rt a c = Inr acts \<longrightarrow>
      (Calculate \<in> set acts \<longleftrightarrow>
         (\<exists>s. owner c = JStr s \<and> toLowerCase rt (account a) = toLowerCase rt s) \<and>
         status c = JStr ''processing''))"
proof -
  have 1: "fst (calculateCarbon rt cid (l, a)) = Inr () \<and>
      transactionStatus (snd (snd (calculateCarbon rt cid (l, a)))) =
        \<lparr>visible = True, kind = Failure,
         text_of = ''Calculation failed: Campaign not found''\<rparr> \<and>
      kv (fst (snd (calculateCarbon rt cid (l, a)))) = kv l \<and>
      filter isWrite (calls (fst (snd (calculateCarbon rt cid (l, a))))) =
        filter isWrite (calls l)"
    if h: "provider a" "getContractWithSigner l = Inr True" "ToString rt cid = Inr k"
      "getFault l (recordKey rt cid) = None" "kv l (recordKey rt cid) = []"
  proof -
    let ?a = "a\<lparr>transactionStatus :=
                   \<lparr>visible = True, kind = Pending,
                    text_of = ''Calculating carbon footprint with FHE...''\<rparr>\<rparr>"
    from calc_catch[OF h(1) calc_try_not_found[OF h(2,3,4,5), of ?a]]
    show ?thesis by simp
  qed
  have p: "propOf (updatedCampaign v n) ''status'' = JStr ''completed'' \<and>
           propOf (updatedCampaign v n) ''carbonFootprint'' = JNum n"
    by (simp add: updatedCampaign_def map_of_setProp)
  have 2: "fst (calculateCarbon rt cid (l, a)) = Inr () \<and>
      transactionStatus (snd (snd (calculateCarbon rt cid (l, a)))) =
        \<lparr>visible = True, kind = Success,
         text_of = ''Carbon footprint calculated successfully!''\<rparr> \<and>
      kv (fst (snd (calculateCarbon rt cid (l, a)))) =
        (kv l)(recordKey rt cid := encode rt (updatedCampaign v n)) \<and>
      filter isWrite (calls (fst (snd (calculateCarbon rt cid (l, a))))) =
        filter isWrite (calls l) @ [SetData (recordKey rt cid) (encode rt (updatedCampaign v n))] \<and>
      propOf (updatedCampaign v n) ''status'' = JStr ''completed'' \<and>
      propOf (updatedCampaign v n) ''carbonFootprint'' = JNum n"
    if h: "provider a" "getContractWithSigner l = Inr True" "ToString rt cid = Inr k"
      "getFault l (recordKey rt cid) = None" "setFault l (recordKey rt cid) = None"
      "kv l (recordKey rt cid) \<noteq> []" "decode rt (kv l (recordKey rt cid)) = Inr v"
      "carbonOf rt v = Inr n"
    using calc_succeeds[OF h] p by blast
  have 3: "Calculate \<in> set acts \<longleftrightarrow>
         (\<exists>s. owner c = JStr s \<and> toLowerCase rt (account a) = toLowerCase rt s) \<and>
         status c = JStr ''processing''"
    if "rowActions rt a c = Inr acts"
    using that by (cases "owner c") (auto simp: rowActions_def isOwner_def split: if_splits)
  show ?thesis using 1 2 3 by blast
qed

theorem compute_guards_witness:
  "provider (initialApp ''0xabc'' True) \<and> getContractWithSigner (storeOf []) = Inr True \<and>
   ToString (tableRuntime []) (JStr ''c1'') = Inr ''c1'' \<and>
   getFault (storeOf []) (recordKey (tableRuntime []) (JStr ''c1'')) = None \<and>
   kv (storeOf []) (recordKey (tableRuntime []) (JStr ''c1'')) = [] \<and>
   transactionStatus (snd (snd (calculateCarbon (tableRuntime []) (JStr ''c1'')
                                  (storeOf [], initialApp ''0xabc'' True)))) =
     \<lparr>visible = True, kind = Failure, text_of = ''Calculation failed: Campaign not found''\<rparr> \<and>
   rowActions (tableRuntime []) (initialApp ''0xabc'' True)
     (campaign ''c1'' 5 ''0xABC'' 0 ''processing'') = Inr [Calculate] \<and>
   toLowerCase (tableRuntime []) (account (initialApp ''0xabc'' True)) =
     toLowerCase (tableRuntime []) ''0xABC'' \<and>
   status (campaign ''c1'' 5 ''0xABC'' 0 ''processing'') = JStr ''processing''"
proof -
  let ?a = "initialApp ''0xabc'' True"
  let ?rt = "tableRuntime []"
  have h1: "provider ?a" by (simp add: initialApp_def)
  have h2: "getContractWithSigner (storeOf []) = Inr True"
    by (simp add: getContractWithSigner_def storeOf_def)
  have hk: "ToString ?rt (JStr ''c1'') = Inr ''c1''" by simp
  have h3: "getFault (storeOf []) (recordKey ?rt (JStr ''c1'')) = None"
    by (simp add: storeOf_def)
  have h4: "kv (storeOf []) (recordKey ?rt (JStr ''c1'')) = []"
    by (simp add: storeOf_def)
  have h5: "rowActions ?rt ?a (campaign ''c1'' 5 ''0xABC'' 0 ''processing'') = Inr [Calculate]"
    by code_simp
  have o: "owner (campaign ''c1'' 5 ''0xABC'' 0 ''processing'') = JStr ''0xABC''"
    by (simp add: campaign_def)
  from compute_guards[of ?a "storeOf []" ?rt "JStr ''c1''" "''c1''" _ _
      "campaign ''c1'' 5 ''0xABC'' 0 ''processing''" "[Calculate]"] h1 h2 hk h3 h4 h5
  have "transactionStatus (snd (snd (calculateCarbon ?rt (JStr ''c1'') (storeOf [], ?a)))) =
     \<lparr>visible = True, kind = Failure, text_of = ''Calculation failed: Campaign not found''\<rparr> \<and>
    (\<exists>s. owner (campaign ''c1'' 5 ''0xABC'' 0 ''processing'') = JStr s \<and>
         toLowerCase ?rt (account ?a) = toLowerCase ?rt s) \<and>
    status (campaign ''c1'' 5 ''0xABC'' 0 ''processing'') = JStr ''processing''"
    by simp
  then have "transactionStatus (snd (snd (calculateCarbon ?rt (JStr ''c1'') (storeOf [], ?a)))) =
     \<lparr>visible = True, kind = Failure, text_of = ''Calculation failed: Campaign not found''\<rparr> \<and>
    toLowerCase ?rt (account ?a) = toLowerCase ?rt ''0xABC'' \<and>
    status (campaign ''c1'' 5 ''0xABC'' 0 ''processing'') = JStr ''processing''"
    unfolding o by simp
  then show ?thesis using h1 h2 hk h3 h4 h5 by blast
qed

text \<open>
  A record that is already completed, owned by another account: \<^verbatim>\<open>calculateCarbon\<close>
  called on its id recomputes the footprint and writes the record again.
\<close>

theorem compute_unguarded_counterexample:
  \<open>isOwner (tableRuntime computeTexts) (initialApp ''0xOther'' True) (JStr ''0xOwner'') = Inr False \<and>
   decode (tableRuntime computeTexts) (kv completedStore ''campaign_c1'') =
     Inr (campaignJson 99 ''completed'') \<and>
   propOf (campaignJson 99 ''completed'') ''owner'' = JStr ''0xOwner'' \<and>
   propOf (campaignJson 99 ''completed'') ''status'' = JStr ''completed'' \<and>
   kind (transactionStatus (snd (snd (calculateCarbon (tableRuntime computeTexts) (JStr ''c1'')
                                  (completedStore, initialApp ''0xOther'' True))))) = Success \<and>
   filter isWrite (calls (fst (snd (calculateCarbon (tableRuntime computeTexts) (JStr ''c1'')
                                  (completedStore, initialApp ''0xOther'' True))))) =
     [SetData ''campaign_c1''
        ''{"name":"Camp1","timestamp":1700000000,"owner":"0xOwner","carbonFootprint":3,"status":"completed","details":{"servers":2,"bandwidth":10,"impressions":1000,"duration":5}}'']\<close>
  by code_simp

text \<open>
  C10. When the compute transition has read the record and the blob is empty, does not
  parse, or parses to a value without the \<^verbatim>\<open>details\<close> object, it ends in the failure
  status, having issued no write: the store and the list are as before. In any run, a write
  is issued only after the blob was read, parsed and the formula evaluated, and it is the
  write of the updated record.
\<close>

theorem compute_failure_writes_nothing:
  assumes "provider a" and "getContractWithSigner l = Inr True"
    and "getFault l (recordKey rt cid) = None"
    and "kv l (recordKey rt cid) = [] \<or>
         (\<exists>e. decode rt (kv l (recordKey rt cid)) = Inl e) \<or>
         (\<exists>v. decode rt (kv l (recordKey rt cid)) = Inr v \<and>
              (nullish v \<or> nullish (propOf v ''details'')))"
  shows "fst (calculateCarbon rt cid (l, a)) = Inr () \<and>
         kind (transactionStatus (snd (snd (calculateCarbon rt cid (l, a))))) = Failure \<and>
         campaigns (snd (snd (calculateCarbon rt cid (l, a)))) = campaigns a \<and>
         kv (fst (snd (calculateCarbon rt cid (l, a)))) = kv l \<and>
         filter isWrite (calls (fst (snd (calculateCarbon rt cid (l, a))))) =
           filter isWrite (calls l) \<and>
         (\<forall>rt' cid' l' a'.
            filter isWrite (calls (fst (snd (calculateCarbon rt' cid' (l', a'))))) =
              filter isWrite (calls l') \<or>
            (\<exists>v c. getFault l' (recordKey rt' cid') = None \<and>
               kv l' (recordKey rt' cid') \<noteq> [] \<and>
               decode rt' (kv l' (recordKey rt' cid')) = Inr v \<and> carbonOf rt' v = Inr c \<and>
               filter isWrite (calls (fst (snd (calculateCarbon rt' cid' (l', a'))))) =
                 filter isWrite (calls l') @
                 [SetData (recordKey rt' cid') (encode rt' (updatedCampaign v c))]))"
proof -
  obtain e rs where "filter isWrite rs = []" and "calculateCarbon rt cid (l, a) =
           (Inr (), l\<lparr>calls := calls l @ rs\<rparr>,
            a\<lparr>transactionStatus :=
                 \<lparr>visible = True, kind = Failure,
                  text_of = ''Calculation failed: '' @
                    (if message rt e = [] then ''Unknown error'' else message rt e)\<rparr>\<rparr>)"
    using calc_fails[OF assms] by blast
  then show ?thesis using calc_writes_after by simp
qed

theorem compute_failure_writes_nothing_witness:
  \<open>provider (initialApp ''0xOwner'' True) \<and> getContractWithSigner bareStore = Inr True \<and>
   getFault bareStore (recordKey (tableRuntime computeTexts) (JStr ''c1'')) = None \<and>
   decode (tableRuntime computeTexts)
     (kv bareStore (recordKey (tableRuntime computeTexts) (JStr ''c1''))) =
     Inr (JObj [(''name'', JStr ''Camp1'')]) \<and>
   nullish (propOf (JObj [(''name'', JStr ''Camp1'')]) ''details'') \<and>
   kind (transactionStatus (snd (snd (calculateCarbon (tableRuntime computeTexts) (JStr ''c1'')
                                  (bareStore, initialApp ''0xOwner'' True))))) = Failure \<and>
   kv (fst (snd (calculateCarbon (tableRuntime computeTexts) (JStr ''c1'')
                                  (bareStore, initialApp ''0xOwner'' True)))) = kv bareStore \<and>
   filter isWrite (calls (fst (snd (calculateCarbon (tableRuntime computeTexts) (JStr ''c1'')
                                  (bareStore, initialApp ''0xOwner'' True))))) = []\<close>
proof -
  let ?rt = "tableRuntime computeTexts"
  let ?a = "initialApp ''0xOwner'' True"
  have h1: "provider ?a" by (simp add: initialApp_def)
  have h2: "getContractWithSigner bareStore = Inr True"
    by (simp add: getContractWithSigner_def bareStore_def storeOf_def)
  have h3: "getFault bareStore (recordKey ?rt (JStr ''c1'')) = None"
    by (simp add: bareStore_def storeOf_def)
  have h4: "decode ?rt (kv bareStore (recordKey ?rt (JStr ''c1''))) =
     Inr (JObj [(''name'', JStr ''Camp1'')])" by code_simp
  have h5: "nullish (propOf (JObj [(''name'', JStr ''Camp1'')]) ''details'')" by code_simp
  have c0: "calls bareStore = []" by (simp add: bareStore_def storeOf_def)
  from h4 h5 have h: "kv bareStore (recordKey ?rt (JStr ''c1'')) = [] \<or>
         (\<exists>e. decode ?rt (kv bareStore (recordKey ?rt (JStr ''c1''))) = Inl e) \<or>
         (\<exists>v. decode ?rt (kv bareStore (recordKey ?rt (JStr ''c1''))) = Inr v \<and>
              (nullish v \<or> nullish (propOf v ''details'')))" by blast
  from compute_failure_writes_nothing[OF h1 h2 h3 h] c0
  show ?thesis using h1 h2 h3 h4 h5 by simp
qed

section \<open>Statistics\<close>

lemma orElse_number: "n \<noteq> NaN \<Longrightarrow> orElse (JNum n) (JNum (Fin 0)) = JNum n"
  by (cases n) (auto simp add: orElse_def)

lemma jsPlus_numbers: "jsPlus rt (JNum a) (JNum b) = Inr (JNum (addN a b))"
  by (simp add: jsPlus_def toNumber_def)

lemma reduce_numbers:
  "map carbonFootprint cs = map JNum ns \<Longrightarrow> NaN \<notin> set ns \<Longrightarrow>
   reduce (\<lambda>sum c. jsPlus rt sum (orElse (carbonFootprint c) (JNum (Fin 0)))) cs (JNum acc)
     = Inr (JNum (foldl addN acc ns))"
proof (induction cs arbitrary: ns acc)
  case Nil
  then show ?case by simp
next
  case (Cons c cs)
  then obtain n ns' where ns: "ns = n # ns'" "carbonFootprint c = JNum n"
    "map carbonFootprint cs = map JNum ns'" "n \<noteq> NaN" "NaN \<notin> set ns'"
    by (cases ns) auto
  from Cons.IH[OF ns(3,5)] ns(1,2,4) show ?case
    by (simp add: orElse_number jsPlus_numbers)
qed

lemma count_filter: "length (filter (\<lambda>c. f c = v) cs) = count_list (map f cs) v"
  by (induction cs) auto

text \<open>
  C9, as the code has it. The completed count is the number of campaigns whose status is
  \<^verbatim>\<open>completed\<close> and the processing count the number whose status is
  \<^verbatim>\<open>processing\<close>. When every campaign's footprint is a number, as the interface
  declares, the total carbon is the footprints added from left to right, each sum rounded
  to a binary64 value, and the average is the total divided by the number of campaigns,
  rounded likewise, or zero on the empty list, where nothing is divided.
\<close>

theorem statistics_of_list:
  assumes "map carbonFootprint cs = map JNum ns" and "NaN \<notin> set ns"
  shows "completedCount cs = count_list (map status cs) (JStr ''completed'') \<and>
         processingCount cs = count_list (map status cs) (JStr ''processing'') \<and>
         totalCarbon rt cs = Inr (JNum (foldl addN (Fin 0) ns)) \<and>
         avgCarbon rt cs =
           Inr (JNum (if cs = [] then Fin 0
                      else divN (foldl addN (Fin 0) ns) (Fin (of_nat (length cs))))) \<and>
         avgCarbon rt [] = Inr (JNum (Fin 0))"
proof -
  have t: "totalCarbon rt cs = Inr (JNum (foldl addN (Fin 0) ns))"
    using reduce_numbers[OF assms, of rt "Fin 0"] by (simp add: totalCarbon_def)
  have a: "avgCarbon rt cs =
           Inr (JNum (if cs = [] then Fin 0
                      else divN (foldl addN (Fin 0) ns) (Fin (of_nat (length cs)))))"
  proof (cases "cs = []")
    case True
    then show ?thesis by (simp add: avgCarbon_def totalCarbon_def)
  next
    case False
    then show ?thesis by (simp add: avgCarbon_def t toNumber_def)
  qed
  have e: "avgCarbon rt [] = Inr (JNum (Fin 0))"
    by (simp add: avgCarbon_def totalCarbon_def)
  show ?thesis
    using t a e by (simp add: completedCount_def processingCount_def count_filter)
qed

theorem statistics_of_list_witness:
  "map carbonFootprint
     [campaign ''a'' 3 ''0x1'' 4 ''completed'', campaign ''b'' 2 ''0x1'' 0 ''processing'',
      campaign ''c'' 1 ''0x2'' 3 ''completed''] = map JNum [Fin 4, Fin 0, Fin 3] \<and>
   completedCount [campaign ''a'' 3 ''0x1'' 4 ''completed'', campaign ''b'' 2 ''0x1'' 0 ''processing'',
                   campaign ''c'' 1 ''0x2'' 3 ''completed''] = 2 \<and>
   processingCount [campaign ''a'' 3 ''0x1'' 4 ''completed'', campaign ''b'' 2 ''0x1'' 0 ''processing'',
                   campaign ''c'' 1 ''0x2'' 3 ''completed''] = 1 \<and>
   totalCarbon (tableRuntime []) [campaign ''a'' 3 ''0x1'' 4 ''completed'', campaign ''b'' 2 ''0x1'' 0 ''processing'',
                   campaign ''c'' 1 ''0x2'' 3 ''completed''] = Inr (JNum (Fin 7)) \<and>
   avgCarbon (tableRuntime []) [campaign ''a'' 3 ''0x1'' 4 ''completed'', campaign ''b'' 2 ''0x1'' 0 ''processing'',
                   campaign ''c'' 1 ''0x2'' 3 ''completed''] =
     Inr (JNum (Fin (5254199565265579 / 2251799813685248)))"
proof -
  let ?cs = "[campaign ''a'' 3 ''0x1'' 4 ''completed'', campaign ''b'' 2 ''0x1'' 0 ''processing'',
              campaign ''c'' 1 ''0x2'' 3 ''completed'']"
  have h1: "map carbonFootprint ?cs = map JNum [Fin 4, Fin 0, Fin 3]"
    by (simp add: campaign_def)
  have h2: "NaN \<notin> set [Fin 4, Fin 0, Fin 3]" by simp
  have s: "foldl addN (Fin 0) [Fin 4, Fin 0, Fin 3] = Fin 7" by code_simp
  have d: "divN (Fin 7) (Fin (of_nat (length ?cs))) = Fin (5254199565265579 / 2251799813685248)"
    by code_simp
  have c: "count_list (map status ?cs) (JStr ''completed'') = 2 \<and>
           count_list (map status ?cs) (JStr ''processing'') = 1"
    by (simp add: campaign_def)
  from statistics_of_list[OF h1 h2, of "tableRuntime []"]
  show ?thesis unfolding s d using c h1 by simp
qed

text \<open>
  A record whose footprint is the string \<^verbatim>\<open>"5"\<close> is kept by the loader with that
  footprint, and the total of the list is the string \<^verbatim>\<open>"05"\<close>, not the sum 5.
\<close>

theorem statistics_string_footprint_counterexample:
  \<open>map carbonFootprint
     (campaigns (snd (snd (loadCampaigns (tableRuntime stringTexts)
                             (stringStore, initialApp ''0x1'' True))))) = [JStr ''5''] \<and>
   totalCarbon (tableRuntime stringTexts)
     (campaigns (snd (snd (loadCampaigns (tableRuntime stringTexts)
                             (stringStore, initialApp ''0x1'' True))))) = Inr (JStr ''05'')\<close>
  by code_simp

section \<open>Pagination\<close>

lemma totalPages_div: "totalPages xs = (int (length xs) + 4) div 5"
proof -
  have "\<lceil>(of_nat (length xs) :: rat) / of_int 5\<rceil> = - (- int (length xs) div 5)"
    using ceiling_divide_eq_div[of "int (length xs)" 5, where ?'a = rat] by simp
  then show ?thesis by (simp add: totalPages_def itemsPerPage_def)
qed

lemma currentItems_in_range:
  assumes "1 \<le> p" "p \<le> totalPages xs"
  shows "currentItems xs p = take 5 (drop (nat ((p - 1) * 5)) xs) \<and> currentItems xs p \<noteq> []"
proof -
  have lt: "(p - 1) * 5 < int (length xs)"
    using assms unfolding totalPages_div by presburger
  have "currentItems xs p = take (nat (min (p * 5) (int (length xs)) - (p - 1) * 5)) (drop (nat ((p - 1) * 5)) xs)"
    using assms lt
    by (simp add: currentItems_def slice_def indexOfFirstItem_def indexOfLastItem_def
        itemsPerPage_def Let_def algebra_simps min_def)
  also have "\<dots> = take 5 (drop (nat ((p - 1) * 5)) xs)"
    using assms lt by (auto simp: min_def algebra_simps)
  finally have 1: "currentItems xs p = take 5 (drop (nat ((p - 1) * 5)) xs)" .
  have "drop (nat ((p - 1) * 5)) xs \<noteq> []" using lt assms by simp
  then show ?thesis using 1 by simp
qed

lemma currentItems_beyond:
  assumes "totalPages xs < p \<or> p = 0"
  shows "currentItems xs p = []"
proof (cases "p = 0")
  case True
  then show ?thesis
    by (simp add: currentItems_def slice_def indexOfFirstItem_def indexOfLastItem_def
        itemsPerPage_def Let_def)
next
  case False
  with assms have gt: "totalPages xs < p" by simp
  have "0 \<le> totalPages xs" unfolding totalPages_div by simp
  with gt have p: "1 \<le> p" by simp
  have ge: "int (length xs) \<le> (p - 1) * 5"
    using gt unfolding totalPages_div by presburger
  show ?thesis using p ge
    by (simp add: currentItems_def slice_def indexOfFirstItem_def indexOfLastItem_def
        itemsPerPage_def Let_def algebra_simps min_def)
qed

lemma requests_in_range:
  assumes "1 \<le> p" "p \<le> totalPages xs" "q \<in> set (paginationRequests xs p)"
  shows "1 \<le> q \<and> q \<le> totalPages xs"
  using assms by (auto simp: paginationRequests_def split: if_splits)

text \<open>
  C8, as the code has it. The page size is 5, pages count from 1 and the number of pages is
  the ceiling of the number of filtered campaigns over 5. \<^verbatim>\<open>paginate\<close> stores the page
  it is given, unchanged: a page within range shows its five (or fewer) items, a page beyond
  the last one or page 0 shows no item, and nothing is an error. The pagination bar, shown
  on a page within range, only asks for pages within range.
\<close>

theorem pagination_as_coded:
  "itemsPerPage = 5 \<and>
   totalPages xs = \<lceil>(of_nat (length xs) :: rat) / 5\<rceil> \<and>
   currentPage (paginate p a) = p \<and>
   (1 \<le> p \<and> p \<le> totalPages xs \<longrightarrow>
      currentItems xs p = take 5 (drop (nat ((p - 1) * 5)) xs) \<and> currentItems xs p \<noteq> []) \<and>
   (totalPages xs < p \<or> p = 0 \<longrightarrow> currentItems xs p = []) \<and>
   (1 \<le> p \<and> p \<le> totalPages xs \<longrightarrow>
      (\<forall>q\<in>set (paginationRequests xs p). 1 \<le> q \<and> q \<le> totalPages xs))"
proof -
  have 1: "itemsPerPage = 5" by (simp add: itemsPerPage_def)
  have 2: "totalPages xs = \<lceil>(of_nat (length xs) :: rat) / 5\<rceil>"
    by (simp add: totalPages_def itemsPerPage_def)
  have 3: "currentPage (paginate p a) = p" by (simp add: paginate_def)
  show ?thesis
    using 1 2 3 currentItems_in_range[of p xs] currentItems_beyond[of xs p]
      requests_in_range[of p xs]
    by blast
qed

theorem pagination_as_coded_witness:
  "itemsPerPage = 5 \<and> totalPages [1, 2, 3, 4, 5, 6, 7 :: nat] = 2 \<and>
   currentPage (paginate 2 (initialApp ''0x1'' True)) = 2 \<and>
   currentItems [1, 2, 3, 4, 5, 6, 7 :: nat] 2 = [6, 7] \<and>
   currentItems [1, 2, 3, 4, 5, 6, 7 :: nat] 3 = [] \<and>
   paginationRequests [1, 2, 3, 4, 5, 6, 7 :: nat] 2 = [1, 1, 2]"
proof -
  have t: "totalPages [1, 2, 3, 4, 5, 6, 7 :: nat] = 2" by code_simp
  have r: "paginationRequests [1, 2, 3, 4, 5, 6, 7 :: nat] 2 = [1, 1, 2]" by code_simp
  have c2: "currentItems [1, 2, 3, 4, 5, 6, 7 :: nat] 2 = [6, 7]" by code_simp
  have b: "totalPages [1, 2, 3, 4, 5, 6, 7 :: nat] < 3" using t by simp
  from pagination_as_coded[of "[1, 2, 3, 4, 5, 6, 7 :: nat]" 3 "initialApp ''0x1'' True"] b
  have c3: "currentItems [1, 2, 3, 4, 5, 6, 7 :: nat] 3 = []" by blast
  from pagination_as_coded[of "[1, 2, 3, 4, 5, 6, 7 :: nat]" 2 "initialApp ''0x1'' True"]
  have "itemsPerPage = 5 \<and> currentPage (paginate 2 (initialApp ''0x1'' True)) = 2" by blast
  then show ?thesis using t r c2 c3 by blast
qed

text \<open>On a list of three items, which has one page, page 7 and page 0 are stored as
  requested and show no item.\<close>

theorem pagination_not_clamped_counterexample:
  "totalPages [1, 2, 3 :: nat] = 1 \<and>
   currentPage (paginate 7 (initialApp ''0x1'' True)) = 7 \<and>
   currentItems [1, 2, 3 :: nat] 7 = [] \<and>
   currentPage (paginate 0 (initialApp ''0x1'' True)) = 0 \<and>
   currentItems [1, 2, 3 :: nat] 0 = []"
  by code_simp

section \<open>The chart\<close>

lemma slice_take: "slice xs 0 5 = take 5 xs"
  by (simp add: slice_def Let_def min_def)

lemma mapE_all:
  "(\<And>x. x \<in> set xs \<Longrightarrow> f x = Inr (g x)) \<Longrightarrow> mapE f xs = Inr (map g xs)"
  by (induction xs) simp_all

lemma chartBar_named:
  "name c = JStr s \<Longrightarrow>
   chartBar rt m c =
     Inr \<lparr>bar_key = id' c, bar_label = take 10 s @ ''...'',
          bar_width = mulN (divN (toNumber rt (carbonFootprint c)) m) (Fin 100),
          bar_value = carbonFootprint c\<rparr>"
  by (simp add: chartBar_def)

text \<open>
  C7, as the code has it. With no completed campaign the chart is one of the two empty
  states and nothing is divided. Otherwise, when the names of the campaigns shown are
  strings, the chart has a bar for each of the first five completed campaigns, in the order
  of the list, and the width of a bar is the footprint divided by the largest footprint of
  all completed campaigns, shown or not, times 100.
\<close>

theorem chart_as_coded:
  "(completedCampaigns cs = [] \<longrightarrow>
      renderCarbonChart rt cs = Inr (if cs = [] then NoData else NoCompleted)) \<and>
   (completedCampaigns cs \<noteq> [] \<and>
    (\<forall>c\<in>set (take 5 (completedCampaigns cs)). \<exists>s. name c = JStr s) \<longrightarrow>
      (\<exists>bs. renderCarbonChart rt cs = Inr (Bars bs) \<and> length bs \<le> 5 \<and>
         map bar_key bs = map id' (take 5 (completedCampaigns cs)) \<and>
         map bar_value bs = map carbonFootprint (take 5 (completedCampaigns cs)) \<and>
         map bar_width bs =
           map (\<lambda>c. mulN (divN (toNumber rt (carbonFootprint c))
                         (Math_max (map (\<lambda>c. toNumber rt (carbonFootprint c))
                            (filter (\<lambda>c. status c = JStr ''completed'') cs))))
                     (Fin 100))
             (take 5 (completedCampaigns cs))))"
proof -
  have a: "renderCarbonChart rt cs = Inr (if cs = [] then NoData else NoCompleted)"
    if "completedCampaigns cs = []"
    using that by (simp add: renderCarbonChart_def)
  have b: "\<exists>bs. renderCarbonChart rt cs = Inr (Bars bs) \<and> length bs \<le> 5 \<and>
         map bar_key bs = map id' (take 5 (completedCampaigns cs)) \<and>
         map bar_value bs = map carbonFootprint (take 5 (completedCampaigns cs)) \<and>
         map bar_width bs =
           map (\<lambda>c. mulN (divN (toNumber rt (carbonFootprint c))
                         (Math_max (map (\<lambda>c. toNumber rt (carbonFootprint c))
                            (filter (\<lambda>c. status c = JStr ''completed'') cs))))
                     (Fin 100))
             (take 5 (completedCampaigns cs))"
    if ne: "completedCampaigns cs \<noteq> []"
      and nm: "\<forall>c\<in>set (take 5 (completedCampaigns cs)). \<exists>s. name c = JStr s"
  proof -
    let ?m = "maxCarbon rt cs"
    let ?g = "\<lambda>c. \<lparr>bar_key = id' c,
                   bar_label = take 10 (case name c of JStr s \<Rightarrow> s | _ \<Rightarrow> []) @ ''...'',
                   bar_width = mulN (divN (toNumber rt (carbonFootprint c)) ?m) (Fin 100),
                   bar_value = carbonFootprint c\<rparr>"
    have "chartBar rt ?m c = Inr (?g c)" if "c \<in> set (take 5 (completedCampaigns cs))" for c
    proof -
      from nm that obtain s where "name c = JStr s" by blast
      then show ?thesis by (simp add: chartBar_named)
    qed
    then have m: "mapE (chartBar rt ?m) (take 5 (completedCampaigns cs)) =
        Inr (map ?g (take 5 (completedCampaigns cs)))"
      by (rule mapE_all)
    have cs: "cs \<noteq> []" using ne by (auto simp: completedCampaigns_def)
    have r: "renderCarbonChart rt cs = Inr (Bars (map ?g (take 5 (completedCampaigns cs))))"
      using ne cs by (simp add: renderCarbonChart_def slice_take m)
    show ?thesis
      unfolding r
      by (rule exI[of _ "map ?g (take 5 (completedCampaigns cs))"])
         (simp add: maxCarbon_def completedCampaigns_def comp_def)
  qed
  show ?thesis using a b by blast
qed

theorem chart_as_coded_witness:
  "completedCampaigns [campaign ''b'' 2 ''0x1'' 0 ''processing''] = [] \<and>
   renderCarbonChart (tableRuntime []) [campaign ''b'' 2 ''0x1'' 0 ''processing''] = Inr NoCompleted \<and>
   renderCarbonChart (tableRuntime []) [] = Inr NoData \<and>
   completedCampaigns [campaign ''c'' 3 ''0x1'' 4 ''completed'', campaign ''b'' 2 ''0x1'' 0 ''processing'',
     campaign ''a'' 1 ''0x1'' 8 ''completed''] =
     [campaign ''c'' 3 ''0x1'' 4 ''completed'', campaign ''a'' 1 ''0x1'' 8 ''completed''] \<and>
   map name [campaign ''c'' 3 ''0x1'' 4 ''completed'', campaign ''a'' 1 ''0x1'' 8 ''completed''] =
     [JStr ''c'', JStr ''a''] \<and>
   barWidths (renderCarbonChart (tableRuntime [])
     [campaign ''c'' 3 ''0x1'' 4 ''completed'', campaign ''b'' 2 ''0x1'' 0 ''processing'',
      campaign ''a'' 1 ''0x1'' 8 ''completed'']) = [Fin 50, Fin 100]"
proof -
  let ?one = "[campaign ''b'' 2 ''0x1'' 0 ''processing'']"
  let ?three = "[campaign ''c'' 3 ''0x1'' 4 ''completed'', campaign ''b'' 2 ''0x1'' 0 ''processing'',
     campaign ''a'' 1 ''0x1'' 8 ''completed'']"
  have h1: "completedCampaigns ?one = []" by (simp add: completedCampaigns_def campaign_def)
  have e: "renderCarbonChart (tableRuntime []) [] = Inr NoData"
    using chart_as_coded[of "[]" "tableRuntime []"] by (simp add: completedCampaigns_def)
  have h2: "completedCampaigns ?three =
     [campaign ''c'' 3 ''0x1'' 4 ''completed'', campaign ''a'' 1 ''0x1'' 8 ''completed'']"
    by (simp add: completedCampaigns_def campaign_def)
  have h3: "map name [campaign ''c'' 3 ''0x1'' 4 ''completed'', campaign ''a'' 1 ''0x1'' 8 ''completed''] =
     [JStr ''c'', JStr ''a'']" by (simp add: campaign_def)
  have w: "barWidths (renderCarbonChart (tableRuntime []) ?three) = [Fin 50, Fin 100]"
    by code_simp
  from chart_as_coded[of ?one "tableRuntime []"] h1
  have "renderCarbonChart (tableRuntime []) ?one = Inr NoCompleted" by simp
  then show ?thesis using h1 h2 h3 e w by blast
qed

text \<open>
  Six completed campaigns, the oldest with footprint 10 and the others with footprint 1:
  the five bars shown have width 10 per cent, though the largest footprint shown is 1.
\<close>

theorem chart_global_maximum_counterexample:
  "barWidths (renderCarbonChart (tableRuntime []) sixCompleted) =
     [Fin 10, Fin 10, Fin 10, Fin 10, Fin 10] \<and>
   map id' (slice (completedCampaigns sixCompleted) 0 5) =
     [JStr ''f'', JStr ''e'', JStr ''d'', JStr ''c'', JStr ''b''] \<and>
   Math_max (map (\<lambda>c. toNumber (tableRuntime []) (carbonFootprint c))
               (slice (completedCampaigns sixCompleted) 0 5)) = Fin 1"
  by code_simp

section \<open>Creating a campaign\<close>











end
